(* ===== verification/Prelude.thy ===== *)
theory Prelude
  imports Complex_Main "HOL-Library.AList"
begin

text \<open>
  Shared vocabulary of the development: the names of the model's basic types, the
  collection of evaluation equations used by the witnesses, and generic lemmas on
  integer division, decimal digit strings and association lists that several component
  theories use.
\<close>

named_theorems model_eval "equations that evaluate the model on concrete inputs"

type_synonym time_value = "int option"
  \<comment> \<open>an ECMAScript time value: milliseconds since the epoch, \<open>None\<close> for NaN\<close>

type_synonym 'v js_obj = "(string \<times> 'v) list"
  \<comment> \<open>a JavaScript object: its own properties in insertion order\<close>

subsection \<open>Decimal digits\<close>

definition is_digit :: "char \<Rightarrow> bool" where
  "is_digit c \<longleftrightarrow> 48 \<le> (of_char c :: nat) \<and> (of_char c :: nat) \<le> 57"

definition digit_value :: "char \<Rightarrow> nat" where
  "digit_value c = of_char c - 48"

definition digits_to_nat :: "string \<Rightarrow> nat" where
  "digits_to_nat ds = foldl (\<lambda>n c. 10 * n + digit_value c) 0 ds"

fun nat_to_digits :: "nat \<Rightarrow> string" where
  "nat_to_digits n =
     (if n < 10 then [char_of (48 + n)] else nat_to_digits (n div 10) @ [char_of (48 + n mod 10)])"

declare nat_to_digits.simps [simp del]

subsection \<open>Integer division\<close>

lemma div_floor_bounds:
  fixes x n :: int assumes "0 < n"
  shows "n * (x div n) \<le> x" "x < n * (x div n) + n"
proof -
  have "n * (x div n) = x - x mod n" by (simp add: minus_mod_eq_mult_div)
  moreover have "0 \<le> x mod n" "x mod n < n" using assms by simp_all
  ultimately show "n * (x div n) \<le> x" and "x < n * (x div n) + n" by linarith+
qed

lemma div_succ:
  fixes x n :: int assumes "1 < n"
  shows "(x + 1) div n = x div n + (if (x + 1) mod n = 0 then 1 else 0)"
proof -
  have "(x + 1) div n = x div n + 1 div n + (x mod n + 1 mod n) div n" by (rule div_add1_eq)
  moreover have "1 div n = 0" "1 mod n = 1" using assms by simp_all
  ultimately have e: "(x + 1) div n = x div n + (x mod n + 1) div n" by simp
  have "(x + 1) mod n = (x mod n + 1) mod n" by (simp add: mod_add_left_eq)
  moreover have "0 \<le> x mod n" "x mod n < n" using assms by simp_all
  ultimately show ?thesis using e
    by (cases "x mod n + 1 = n") (auto simp: div_pos_pos_trivial mod_pos_pos_trivial)
qed

lemma mod_shift_mult: fixes y k n :: int shows "(y + k * n) mod n = y mod n"
  by simp

lemma div_mod_unique_int:
  fixes x n q r :: int
  assumes "0 < n" "x = n * q + r" "0 \<le> r" "r < n"
  shows "x div n = q \<and> x mod n = r"
proof -
  have "(r + q * n) div n = q" using assms by (simp add: div_pos_pos_trivial)
  moreover have "(r + q * n) mod n = r" using assms by (simp add: mod_pos_pos_trivial)
  ultimately show ?thesis using assms by (simp add: algebra_simps)
qed

subsection \<open>Digit strings\<close>

lemma digits_to_nat_append [simp]:
  "digits_to_nat (ds @ [c]) = 10 * digits_to_nat ds + digit_value c"
  by (simp add: digits_to_nat_def)

lemma digits_to_nat_Nil [simp]: "digits_to_nat [] = 0"
  by (simp add: digits_to_nat_def)

lemma digits_to_nat_single [simp]: "digits_to_nat [c] = digit_value c"
  by (simp add: digits_to_nat_def)

lemma digit_char_of:
  assumes "k < 10"
  shows "is_digit (char_of (48 + k))" "digit_value (char_of (48 + k)) = k"
  using assms by (simp_all add: is_digit_def digit_value_def of_char_of)

lemma nat_to_digits_correct:
  "digits_to_nat (nat_to_digits n) = n \<and> (\<forall>c \<in> set (nat_to_digits n). is_digit c)"
proof (induction n rule: nat_to_digits.induct)
  case (1 n)
  show ?case
  proof (cases "n < 10")
    case True
    then show ?thesis by (simp add: nat_to_digits.simps [of n] digit_char_of)
  next
    case False
    with "1.IH" have ih: "digits_to_nat (nat_to_digits (n div 10)) = n div 10"
      "\<forall>c \<in> set (nat_to_digits (n div 10)). is_digit c" by simp_all
    have "n mod 10 < 10" by simp
    with False ih show ?thesis by (simp add: nat_to_digits.simps [of n] digit_char_of)
  qed
qed

lemma nat_to_digits_nonempty [simp]: "nat_to_digits n \<noteq> []"
  by (subst nat_to_digits.simps) simp

lemma nat_to_digits_length: "n < 10 ^ w \<Longrightarrow> 0 < w \<Longrightarrow> length (nat_to_digits n) \<le> w"
proof (induction n arbitrary: w rule: nat_to_digits.induct)
  case (1 n)
  show ?case
  proof (cases "n < 10")
    case True
    with "1.prems" show ?thesis by (simp add: nat_to_digits.simps [of n])
  next
    case False
    with "1.prems" obtain w' where w: "w = Suc w'" "0 < w'"
      by (cases w; cases "w - 1") (auto simp: not_less)
    with "1.prems" have "n div 10 < 10 ^ w'" by (simp add: less_mult_imp_div_less mult.commute)
    with False w "1.IH" [of w'] show ?thesis by (simp add: nat_to_digits.simps [of n])
  qed
qed

lemma digits_to_nat_concat:
  "digits_to_nat (xs @ ys) = digits_to_nat xs * 10 ^ length ys + digits_to_nat ys"
proof (induction ys rule: rev_induct)
  case Nil
  then show ?case by simp
next
  case (snoc y ys)
  then show ?case by (simp flip: append_assoc add: algebra_simps)
qed

lemma digit_value_zero [simp]: "digit_value CHR ''0'' = 0"
  by (simp add: digit_value_def)

lemma digits_to_nat_zeros [simp]: "digits_to_nat (replicate n CHR ''0'') = 0"
proof (induction n)
  case (Suc n)
  have "replicate (Suc n) CHR ''0'' = replicate n CHR ''0'' @ [CHR ''0'']"
    by (simp add: replicate_append_same)
  with Suc show ?case by simp
qed simp

lemma digits_to_nat_leading_zeros [simp]:
  "digits_to_nat (replicate n CHR ''0'' @ ys) = digits_to_nat ys"
  by (simp add: digits_to_nat_concat)

lemma nat_to_digits_hd: "0 < n \<Longrightarrow> hd (nat_to_digits n) \<noteq> CHR ''0''"
proof (induction n rule: nat_to_digits.induct)
  case (1 n)
  show ?case
  proof (cases "n < 10")
    case True
    have "of_char (char_of (48 + n) :: char) = (48 + n :: nat)" using True by (simp add: of_char_of)
    moreover have "of_char (CHR ''0'') = (48 :: nat)" by simp
    ultimately have "char_of (48 + n) \<noteq> CHR ''0''" using "1.prems" by (metis add_cancel_right_right less_numeral_extra(3))
    with True show ?thesis by (simp add: nat_to_digits.simps [of n])
  next
    case False
    then have "0 < n div 10" by simp
    with "1.IH" False show ?thesis by (simp add: nat_to_digits.simps [of n])
  qed
qed

lemma split_trailing:
  fixes xs :: "'a list" and c :: 'a
  defines "z \<equiv> length (takeWhile (\<lambda>x. x = c) (rev xs))"
  shows "xs = take (length xs - z) xs @ replicate z c"
proof -
  let ?r = "rev xs"
  have t: "takeWhile (\<lambda>x. x = c) ?r = replicate z c"
    unfolding z_def by (rule replicate_length_same [symmetric]) (auto dest: set_takeWhileD)
  have "xs = rev (dropWhile (\<lambda>x. x = c) ?r) @ rev (takeWhile (\<lambda>x. x = c) ?r)"
    by (metis rev_append rev_rev_ident takeWhile_dropWhile_id)
  also have "\<dots> = rev (dropWhile (\<lambda>x. x = c) ?r) @ replicate z c" by (simp add: t)
  finally have e: "xs = rev (dropWhile (\<lambda>x. x = c) ?r) @ replicate z c" .
  then have "length (rev (dropWhile (\<lambda>x. x = c) ?r)) = length xs - z"
    by (metis add_diff_cancel_right' length_append length_replicate)
  with e show ?thesis by (metis append_eq_conv_conj)
qed

end
