(* ===== verification/Calendar.thy ===== *)
theory Calendar
  imports Prelude
begin

text \<open>
  The ECMAScript calendar arithmetic behind \<open>Date\<close> (ECMA-262, section 21.4.1): days
  and years of a time value, the month and day of the month, and \<open>MakeDay\<close> /
  \<open>MakeDate\<close>, which \<open>Date.prototype.setMonth\<close> uses to add months with roll-over.
  Time values are integers (milliseconds from 1970-01-01T00:00Z); the proleptic Gregorian
  calendar is used for every year. \<open>YearFromTime\<close> is specified as "the largest year
  whose first day is not after the time value"; \<open>year_from_day\<close> computes it from an
  estimate and one correction, and is proved equal to that specification.
\<close>

definition ms_per_day :: int where
  "ms_per_day = 86400000"

definition day :: "int \<Rightarrow> int" where
  "day t = t div ms_per_day"

definition time_within_day :: "int \<Rightarrow> int" where
  "time_within_day t = t mod ms_per_day"

definition days_in_year :: "int \<Rightarrow> int" where
  "days_in_year y = (if y mod 4 \<noteq> 0 then 365 else if y mod 100 \<noteq> 0 then 366
     else if y mod 400 \<noteq> 0 then 365 else 366)"

definition day_from_year :: "int \<Rightarrow> int" where
  "day_from_year y = 365 * (y - 1970) + (y - 1969) div 4 - (y - 1901) div 100 + (y - 1601) div 400"

definition year_from_day :: "int \<Rightarrow> int" where
  "year_from_day d = (let y0 = 1970 + (400 * d) div 146097 in
     if day_from_year (y0 + 1) \<le> d then y0 + 1
     else if d < day_from_year y0 then y0 - 1 else y0)"

definition year_from_time :: "int \<Rightarrow> int" where
  "year_from_time t = year_from_day (day t)"

definition leap_days :: "int \<Rightarrow> int" where
  \<comment> \<open>1 in a leap year, else 0 (\<open>InLeapYear\<close>)\<close>
  "leap_days y = days_in_year y - 365"

definition month_start :: "int \<Rightarrow> int \<Rightarrow> int" where
  \<comment> \<open>day within the year on which month \<open>m\<close> (0-based) starts, \<open>l\<close> the leap day\<close>
  "month_start l m =
     [0, 31, 59, 90, 120, 151, 181, 212, 243, 273, 304, 334, 365] ! nat m + (if 2 \<le> m then l else 0)"

definition month_from_dwy :: "int \<Rightarrow> int \<Rightarrow> int" where
  \<comment> \<open>the table of \<open>MonthFromTime\<close>\<close>
  "month_from_dwy l d =
     (if d < 31 then 0 else if d < 59 + l then 1 else if d < 90 + l then 2
      else if d < 120 + l then 3 else if d < 151 + l then 4 else if d < 181 + l then 5
      else if d < 212 + l then 6 else if d < 243 + l then 7 else if d < 273 + l then 8
      else if d < 304 + l then 9 else if d < 334 + l then 10 else 11)"

definition day_within_year :: "int \<Rightarrow> int" where
  "day_within_year d = d - day_from_year (year_from_day d)"

definition month_from_day :: "int \<Rightarrow> int" where
  "month_from_day d = month_from_dwy (leap_days (year_from_day d)) (day_within_year d)"

definition date_from_day :: "int \<Rightarrow> int" where
  "date_from_day d =
     day_within_year d - month_start (leap_days (year_from_day d)) (month_from_day d) + 1"

definition month_from_time :: "int \<Rightarrow> int" where
  "month_from_time t = month_from_day (day t)"

definition date_from_time :: "int \<Rightarrow> int" where
  "date_from_time t = date_from_day (day t)"

definition week_day :: "int \<Rightarrow> int" where
  "week_day t = (day t + 4) mod 7"

definition days_in_month :: "int \<Rightarrow> int \<Rightarrow> int" where
  "days_in_month y m = month_start (leap_days y) (m + 1) - month_start (leap_days y) m"

definition make_day :: "int \<Rightarrow> int \<Rightarrow> int \<Rightarrow> int" where
  \<comment> \<open>\<open>MakeDay(year, month, date)\<close> on integral arguments: the month may lie outside
      0..11 and rolls the year over, the date may exceed the month and rolls into the next\<close>
  "make_day y m dt =
     (let ym = y + m div 12; mn = m mod 12
      in day_from_year ym + month_start (leap_days ym) mn + dt - 1)"

definition make_date :: "int \<Rightarrow> int \<Rightarrow> int" where
  "make_date dy tm = dy * ms_per_day + tm"

definition make_time :: "int \<Rightarrow> int \<Rightarrow> int \<Rightarrow> int \<Rightarrow> int" where
  "make_time h mi s ms = h * 3600000 + mi * 60000 + s * 1000 + ms"

definition max_time :: int where
  "max_time = 8640000000000000"

definition time_clip_int :: "int \<Rightarrow> time_value" where
  \<comment> \<open>\<open>TimeClip\<close> on an integral time: NaN beyond 8.64e15 ms either side of the epoch\<close>
  "time_clip_int t = (if \<bar>t\<bar> > max_time then None else Some t)"

lemmas calendar_defs [model_eval] = ms_per_day_def day_def time_within_day_def days_in_year_def
  day_from_year_def year_from_day_def year_from_time_def leap_days_def month_start_def
  month_from_dwy_def day_within_year_def month_from_day_def date_from_day_def
  month_from_time_def date_from_time_def week_day_def days_in_month_def make_day_def
  make_date_def make_time_def max_time_def time_clip_int_def

subsection \<open>Years\<close>

lemma days_in_year_alt:
  "days_in_year y = 365 + (if y mod 4 = 0 then 1 else 0) - (if y mod 100 = 0 then 1 else 0)
     + (if y mod 400 = 0 then 1 else 0)"
proof -
  have "y mod 100 = 0 \<Longrightarrow> y mod 4 = 0"
    using mod_mod_cancel [of 4 100 y] by simp
  moreover have "y mod 400 = 0 \<Longrightarrow> y mod 100 = 0"
    using mod_mod_cancel [of 100 400 y] by simp
  ultimately show ?thesis unfolding days_in_year_def by auto
qed

lemma days_in_year_range: "365 \<le> days_in_year y" "days_in_year y \<le> 366"
  by (simp_all add: days_in_year_def)

lemma leap_days_range: "0 \<le> leap_days y" "leap_days y \<le> 1"
  using days_in_year_range [of y] by (simp_all add: leap_days_def)

lemma day_from_year_succ: "day_from_year (y + 1) = day_from_year y + days_in_year y"
proof -
  define A B C where "A = (y - 1969) div 4" and "B = (y - 1901) div 100" and "C = (y - 1601) div 400"
  define i j k :: int where "i = (if y mod 4 = 0 then 1 else 0)"
    and "j = (if y mod 100 = 0 then 1 else 0)" and "k = (if y mod 400 = 0 then 1 else 0)"
  have a: "(y + 1 - 1969) mod 4 = y mod 4" using mod_shift_mult [of y "-492" 4] by simp
  have b: "(y + 1 - 1901) mod 100 = y mod 100" using mod_shift_mult [of y "-19" 100] by simp
  have c: "(y + 1 - 1601) mod 400 = y mod 400" using mod_shift_mult [of y "-4" 400] by simp
  have "(y + 1 - 1969) div 4 = A + i"
    using div_succ [of 4 "y - 1969"] a unfolding A_def i_def by (simp add: algebra_simps)
  moreover have "(y + 1 - 1901) div 100 = B + j"
    using div_succ [of 100 "y - 1901"] b unfolding B_def j_def by (simp add: algebra_simps)
  moreover have "(y + 1 - 1601) div 400 = C + k"
    using div_succ [of 400 "y - 1601"] c unfolding C_def k_def by (simp add: algebra_simps)
  moreover have "day_from_year y = 365 * (y - 1970) + A - B + C"
    unfolding day_from_year_def A_def B_def C_def ..
  moreover have "days_in_year y = 365 + i - j + k"
    unfolding days_in_year_alt i_def j_def k_def ..
  ultimately show ?thesis unfolding day_from_year_def [of "y + 1"]
    by (simp add: algebra_simps)
qed

lemma day_from_year_scaled:
  "400 * day_from_year y = 146097 * (y - 1970) + 193 - 100 * ((y - 1969) mod 4)
     + 4 * ((y - 1901) mod 100) - (y - 1601) mod 400"
proof -
  define A B C where "A = (y - 1969) div 4" and "B = (y - 1901) div 100" and "C = (y - 1601) div 400"
  define a b c where "a = (y - 1969) mod 4" and "b = (y - 1901) mod 100" and "c = (y - 1601) mod 400"
  have "4 * A = (y - 1969) - a" "100 * B = (y - 1901) - b" "400 * C = (y - 1601) - c"
    unfolding A_def B_def C_def a_def b_def c_def by (simp_all add: minus_mod_eq_mult_div)
  then have "400 * (365 * (y - 1970) + A - B + C) = 146097 * (y - 1970) + 193 - 100 * a + 4 * b - c"
    by (simp add: algebra_simps)
  then show ?thesis unfolding day_from_year_def A_def B_def C_def a_def b_def c_def .
qed

lemma day_from_year_estimate:
  "146097 * (y - 1970) - 506 \<le> 400 * day_from_year y"
  "400 * day_from_year y \<le> 146097 * (y - 1970) + 589"
proof -
  have "0 \<le> (y - 1969) mod 4" "(y - 1969) mod 4 < 4" by simp_all
  moreover have "0 \<le> (y - 1901) mod 100" "(y - 1901) mod 100 < 100" by simp_all
  moreover have "0 \<le> (y - 1601) mod 400" "(y - 1601) mod 400 < 400" by simp_all
  ultimately show "146097 * (y - 1970) - 506 \<le> 400 * day_from_year y"
    "400 * day_from_year y \<le> 146097 * (y - 1970) + 589"
    unfolding day_from_year_scaled [of y] by (simp_all add: algebra_simps)
qed

lemma year_from_day_bounds:
  "day_from_year (year_from_day d) \<le> d" "d < day_from_year (year_from_day d + 1)"
proof -
  define y0 where "y0 = 1970 + (400 * d) div 146097"
  have f1: "146097 * (y0 - 1970) \<le> 400 * d" and f2: "400 * d < 146097 * (y0 - 1970) + 146097"
    unfolding y0_def using div_floor_bounds [of 146097 "400 * d"] by simp_all
  have lo: "day_from_year (y0 - 1) \<le> d"
  proof -
    have "400 * day_from_year (y0 - 1) < 400 * d"
      using day_from_year_estimate(2) [of "y0 - 1"] f1 by (simp add: algebra_simps)
    then show ?thesis by simp
  qed
  have hi: "d < day_from_year (y0 + 2)"
  proof -
    have "400 * d < 400 * day_from_year (y0 + 2)"
      using day_from_year_estimate(1) [of "y0 + 2"] f2 by (simp add: algebra_simps)
    then show ?thesis by simp
  qed
  show "day_from_year (year_from_day d) \<le> d" "d < day_from_year (year_from_day d + 1)"
    using lo hi unfolding year_from_day_def y0_def [symmetric] Let_def
    by (simp_all add: add.assoc)
qed

lemma day_from_year_grows: "day_from_year y + 365 * int k \<le> day_from_year (y + int k)"
proof (induction k)
  case 0
  then show ?case by simp
next
  case (Suc k)
  have e: "y + int (Suc k) = (y + int k) + 1" by simp
  show ?case unfolding e
    using Suc.IH day_from_year_succ [of "y + int k"] days_in_year_range(1) [of "y + int k"]
    by simp
qed

lemma day_from_year_mono:
  assumes "y \<le> y'" shows "day_from_year y \<le> day_from_year y'"
proof -
  obtain k where "y' = y + int k" using assms by (metis zle_iff_zadd)
  with day_from_year_grows [of y k] show ?thesis by simp
qed

lemma day_from_year_less_iff: "day_from_year y < day_from_year y' \<longleftrightarrow> y < y'"
proof
  assume "day_from_year y < day_from_year y'"
  then show "y < y'" using day_from_year_mono [of y' y] by (cases "y' \<le> y") auto
next
  assume "y < y'"
  then have "day_from_year (y + 1) \<le> day_from_year y'" by (intro day_from_year_mono) simp
  with day_from_year_succ [of y] days_in_year_range [of y] show "day_from_year y < day_from_year y'"
    by simp
qed

lemma year_from_day_unique:
  assumes "day_from_year y \<le> d" "d < day_from_year (y + 1)"
  shows "year_from_day d = y"
proof -
  have "day_from_year y < day_from_year (year_from_day d + 1)"
    using assms(1) year_from_day_bounds(2) [of d] by simp
  moreover have "day_from_year (year_from_day d) < day_from_year (y + 1)"
    using assms(2) year_from_day_bounds(1) [of d] by simp
  ultimately show ?thesis unfolding day_from_year_less_iff by simp
qed

text \<open>
  \<open>year_from_day\<close>, an estimate from the mean Gregorian year corrected by at most one,
  computes \<open>YearFromTime\<close> as ECMA-262 specifies it: the largest year whose first day is not
  after the given day.
\<close>

theorem year_from_day_greatest: "year_from_day d = (GREATEST y. day_from_year y \<le> d)"
proof (rule Greatest_equality [symmetric])
  show "day_from_year (year_from_day d) \<le> d" by (rule year_from_day_bounds(1))
next
  fix y assume "day_from_year y \<le> d"
  then have "day_from_year y < day_from_year (year_from_day d + 1)"
    using year_from_day_bounds(2) [of d] by simp
  then show "y \<le> year_from_day d" unfolding day_from_year_less_iff by simp
qed

subsection \<open>Months and days of the month\<close>

lemma month_cases:
  fixes m :: int assumes "0 \<le> m" "m \<le> 11"
  shows "m = 0 \<or> m = 1 \<or> m = 2 \<or> m = 3 \<or> m = 4 \<or> m = 5 \<or> m = 6 \<or> m = 7 \<or> m = 8
    \<or> m = 9 \<or> m = 10 \<or> m = 11"
  using assms by presburger

lemma month_start_values:
  "month_start l 0 = 0"
  "month_start l 1 = 31"
  "month_start l 2 = 59 + l"
  "month_start l 3 = 90 + l"
  "month_start l 4 = 120 + l"
  "month_start l 5 = 151 + l"
  "month_start l 6 = 181 + l"
  "month_start l 7 = 212 + l"
  "month_start l 8 = 243 + l"
  "month_start l 9 = 273 + l"
  "month_start l 10 = 304 + l"
  "month_start l 11 = 334 + l"
  "month_start l 12 = 365 + l"
  by (simp_all add: month_start_def)

lemma month_start_bounds:
  assumes "0 \<le> m" "m \<le> 11" "0 \<le> l"
  shows "0 \<le> month_start l m" "month_start l (m + 1) \<le> month_start l 12"
    "month_start l m < month_start l (m + 1)"
  using month_cases [OF assms(1,2)] assms(3) by (auto simp: month_start_values)

lemma month_start_year: "month_start l 12 = 365 + l"
  by (simp add: month_start_def)

lemma month_from_dwy_bounds:
  assumes "0 \<le> l" "l \<le> 1" "0 \<le> d" "d < 365 + l"
  shows "0 \<le> month_from_dwy l d \<and> month_from_dwy l d \<le> 11 \<and>
    month_start l (month_from_dwy l d) \<le> d \<and> d < month_start l (month_from_dwy l d + 1)"
  using assms unfolding month_from_dwy_def
  by (simp add: month_start_values not_less split: if_split)

lemma month_from_dwy_eq:
  assumes "0 \<le> l" "l \<le> 1" "0 \<le> m" "m \<le> 11"
    "month_start l m \<le> d" "d < month_start l (m + 1)"
  shows "month_from_dwy l d = m"
  using month_cases [OF assms(3,4)] assms by (auto simp: month_from_dwy_def month_start_values)

lemma day_within_year_bounds:
  "0 \<le> day_within_year d" "day_within_year d < 365 + leap_days (year_from_day d)"
  using year_from_day_bounds [of d] day_from_year_succ [of "year_from_day d"]
  by (simp_all add: day_within_year_def leap_days_def)

lemma month_from_day_bounds:
  "0 \<le> month_from_day d" "month_from_day d \<le> 11"
  "month_start (leap_days (year_from_day d)) (month_from_day d) \<le> day_within_year d"
  "day_within_year d < month_start (leap_days (year_from_day d)) (month_from_day d + 1)"
  using month_from_dwy_bounds [of "leap_days (year_from_day d)" "day_within_year d"]
    leap_days_range [of "year_from_day d"] day_within_year_bounds [of d]
  by (simp_all add: month_from_day_def)

lemma date_from_day_bounds:
  "1 \<le> date_from_day d"
  "date_from_day d \<le> days_in_month (year_from_day d) (month_from_day d)"
  using month_from_day_bounds [of d]
  by (simp_all add: date_from_day_def days_in_month_def)

text \<open>
  Splitting a day into year, month and day of the month and assembling it again with
  \<open>MakeDay\<close> gives back the same day.
\<close>

theorem make_day_roundtrip:
  "make_day (year_from_day d) (month_from_day d) (date_from_day d) = d"
proof -
  have "month_from_day d div 12 = 0" "month_from_day d mod 12 = month_from_day d"
    using month_from_day_bounds(1,2) [of d] by simp_all
  then show ?thesis
    by (simp add: make_day_def date_from_day_def day_within_year_def Let_def)
qed

theorem make_day_decode:
  assumes "0 \<le> m" "m \<le> 11" "1 \<le> dt" "dt \<le> days_in_month y m"
  shows "year_from_day (make_day y m dt) = y \<and> month_from_day (make_day y m dt) = m
    \<and> date_from_day (make_day y m dt) = dt"
proof -
  let ?l = "leap_days y"
  have md: "m div 12 = 0" "m mod 12 = m" using assms(1,2) by simp_all
  have mk: "make_day y m dt = day_from_year y + (month_start ?l m + dt - 1)"
    by (simp add: make_day_def md Let_def)
  have b: "0 \<le> month_start ?l m" "month_start ?l (m + 1) \<le> 365 + ?l"
    using month_start_bounds [OF assms(1,2) leap_days_range(1) [of y]] month_start_year [of ?l]
    by simp_all
  have in_m: "month_start ?l m \<le> month_start ?l m + dt - 1"
    "month_start ?l m + dt - 1 < month_start ?l (m + 1)"
    using assms(3,4) by (simp_all add: days_in_month_def)
  have y: "year_from_day (make_day y m dt) = y"
  proof (rule year_from_day_unique)
    show "day_from_year y \<le> make_day y m dt" using mk b in_m by simp
    show "make_day y m dt < day_from_year (y + 1)"
      using mk b in_m day_from_year_succ [of y] by (simp add: leap_days_def)
  qed
  have dwy: "day_within_year (make_day y m dt) = month_start ?l m + dt - 1"
    using y mk by (simp add: day_within_year_def)
  have mo: "month_from_day (make_day y m dt) = m"
    unfolding month_from_day_def y dwy
    using month_from_dwy_eq [OF leap_days_range assms(1,2)] in_m by simp
  have "date_from_day (make_day y m dt) = dt"
    unfolding date_from_day_def y dwy mo by simp
  with y mo show ?thesis by simp
qed

lemma make_day_month_shift: "make_day y (m + 12 * k) dt = make_day (y + k) m dt"
proof -
  have "(m + 12 * k) div 12 = m div 12 + k" "(m + 12 * k) mod 12 = m mod 12" by simp_all
  then show ?thesis by (simp add: make_day_def Let_def algebra_simps)
qed

lemma make_day_date_shift: "make_day y m dt = make_day y m 1 + (dt - 1)"
  by (simp add: make_day_def Let_def)

lemma make_date_decompose: "make_date (day t) (time_within_day t) = t"
  by (simp add: make_date_def day_def time_within_day_def)

lemma time_within_day_make_date:
  "0 \<le> tm \<Longrightarrow> tm < ms_per_day \<Longrightarrow> time_within_day (make_date dy tm) = tm \<and> day (make_date dy tm) = dy"
  using div_mod_unique_int [of ms_per_day "make_date dy tm" dy tm]
  by (simp add: make_date_def day_def time_within_day_def ms_per_day_def algebra_simps)

lemma make_day_normalise: "make_day y m dt = make_day (y + m div 12) (m mod 12) dt"
  by (simp add: make_day_def Let_def)

lemma days_in_month_min:
  assumes "0 \<le> m" "m \<le> 11" shows "28 \<le> days_in_month y m"
  using month_cases [OF assms] leap_days_range [of y]
  by (auto simp: days_in_month_def month_start_values)

lemma days_in_month_max:
  assumes "0 \<le> m" "m \<le> 11" shows "days_in_month y m \<le> 31"
  using month_cases [OF assms] leap_days_range [of y]
  by (auto simp: days_in_month_def month_start_values)

lemma time_clip_int_in_range: "\<bar>t\<bar> \<le> max_time \<Longrightarrow> time_clip_int t = Some t"
  by (simp add: time_clip_int_def)

end
