(* ===== verification/JsNumber.thy ===== *)
theory JsNumber
  imports Prelude
begin

text \<open>
  The ECMAScript Number type and its conversions to and from strings, as far as the
  component uses them: \<open>Number(s)\<close> and unary \<open>+s\<close> on strings (StringToNumber,
  ECMA-262 section 7.1.4.1), \<open>isNaN\<close>, addition, truncation to an integer
  (ToIntegerOrInfinity) and Number::toString (section 6.1.6.1.20), which string
  concatenation with \<open>+\<close> uses. Finite numbers are exact rationals: values the component
  computes (months, time values, decimal literals) are exact in binary64 as long as they
  stay below 2^53, which every time value does; the rounding of longer decimal literals and
  the overflow of huge literals to Infinity are not modelled. Characters are bytes, so
  only the ASCII and Latin-1 white space of StrWhiteSpaceChar is recognised.
\<close>

datatype jsnum = NaN | PosInf | NegInf | Fin rat

definition is_nan :: "jsnum \<Rightarrow> bool" where
  "is_nan x \<longleftrightarrow> x = NaN"

fun num_neg :: "jsnum \<Rightarrow> jsnum" where
  "num_neg NaN = NaN"
| "num_neg PosInf = NegInf"
| "num_neg NegInf = PosInf"
| "num_neg (Fin q) = Fin (- q)"

definition num_add :: "jsnum \<Rightarrow> jsnum \<Rightarrow> jsnum" where
  \<comment> \<open>Number::add\<close>
  "num_add x y =
     (if x = NaN \<or> y = NaN then NaN
      else (case x of
              Fin a \<Rightarrow> (case y of Fin b \<Rightarrow> Fin (a + b) | _ \<Rightarrow> y)
            | PosInf \<Rightarrow> (if y = NegInf then NaN else PosInf)
            | NegInf \<Rightarrow> (if y = PosInf then NaN else NegInf)
            | NaN \<Rightarrow> NaN))"

definition js_trunc :: "rat \<Rightarrow> int" where
  \<comment> \<open>ToIntegerOrInfinity on a finite number: truncation towards zero\<close>
  "js_trunc q = (if q < 0 then - \<lfloor>- q\<rfloor> else \<lfloor>q\<rfloor>)"

definition pow10 :: "int \<Rightarrow> rat" where
  "pow10 e = power_int 10 e"

subsection \<open>StringToNumber\<close>

definition js_ws :: "char \<Rightarrow> bool" where
  \<comment> \<open>StrWhiteSpaceChar restricted to single bytes: TAB, LF, VT, FF, CR, SP, NBSP\<close>
  "js_ws c \<longleftrightarrow> (of_char c :: nat) \<in> {9, 10, 11, 12, 13, 32, 160}"

definition js_trim :: "string \<Rightarrow> string" where
  "js_trim s = rev (dropWhile js_ws (rev (dropWhile js_ws s)))"

definition radix_digit :: "nat \<Rightarrow> char \<Rightarrow> nat option" where
  "radix_digit r c =
     (let n = (of_char c :: nat);
          d = (if 48 \<le> n \<and> n \<le> 57 then n - 48 else if 97 \<le> n \<and> n \<le> 122 then n - 87
               else if 65 \<le> n \<and> n \<le> 90 then n - 55 else r)
      in if d < r then Some d else None)"

fun radix_value :: "nat \<Rightarrow> nat \<Rightarrow> string \<Rightarrow> nat option" where
  "radix_value r acc [] = Some acc"
| "radix_value r acc (c # cs) =
     (case radix_digit r c of None \<Rightarrow> None | Some d \<Rightarrow> radix_value r (r * acc + d) cs)"

definition parse_non_decimal :: "string \<Rightarrow> nat option" where
  \<comment> \<open>NonDecimalIntegerLiteral: \<open>0x\<close>, \<open>0o\<close>, \<open>0b\<close> and at least one digit, no sign\<close>
  "parse_non_decimal t =
     (case t of
        c0 # c1 # ds \<Rightarrow>
          if c0 = CHR ''0'' \<and> ds \<noteq> [] then
            (if c1 = CHR ''x'' \<or> c1 = CHR ''X'' then radix_value 16 0 ds
             else if c1 = CHR ''o'' \<or> c1 = CHR ''O'' then radix_value 8 0 ds
             else if c1 = CHR ''b'' \<or> c1 = CHR ''B'' then radix_value 2 0 ds
             else None)
          else None
      | _ \<Rightarrow> None)"

definition exponent_digits :: "int \<Rightarrow> string \<Rightarrow> int option" where
  "exponent_digits sg ds =
     (if ds \<noteq> [] \<and> list_all is_digit ds then Some (sg * int (digits_to_nat ds)) else None)"

fun parse_exponent :: "string \<Rightarrow> int option" where
  \<comment> \<open>ExponentPart, or nothing at all; anything else left over is a syntax error\<close>
  "parse_exponent [] = Some 0"
| "parse_exponent (c # r) =
     (if c = CHR ''e'' \<or> c = CHR ''E'' then
        (case r of
           s # ds \<Rightarrow> if s = CHR ''+'' then exponent_digits 1 ds
                    else if s = CHR ''-'' then exponent_digits (-1) ds
                    else exponent_digits 1 r
         | [] \<Rightarrow> None)
      else None)"

definition split_fraction :: "string \<Rightarrow> string \<times> string" where
  "split_fraction r1 =
     (case r1 of
        c # r \<Rightarrow> if c = CHR ''.'' then (takeWhile is_digit r, dropWhile is_digit r) else ([], r1)
      | [] \<Rightarrow> ([], []))"

definition parse_unsigned_decimal :: "string \<Rightarrow> jsnum option" where
  \<comment> \<open>StrUnsignedDecimalLiteral\<close>
  "parse_unsigned_decimal s =
     (if s = ''Infinity'' then Some PosInf
      else
        (let ip = takeWhile is_digit s; (fp, r2) = split_fraction (dropWhile is_digit s)
         in if ip = [] \<and> fp = [] then None
            else (case parse_exponent r2 of
                    None \<Rightarrow> None
                  | Some e \<Rightarrow>
                      Some (Fin (of_nat (digits_to_nat (ip @ fp)) * pow10 (e - int (length fp)))))))"

definition parse_decimal :: "string \<Rightarrow> jsnum option" where
  \<comment> \<open>StrDecimalLiteral: an optional sign, then an unsigned literal\<close>
  "parse_decimal t =
     (case t of
        [] \<Rightarrow> None
      | c # r \<Rightarrow>
          if c = CHR ''+'' then parse_unsigned_decimal r
          else if c = CHR ''-'' then map_option num_neg (parse_unsigned_decimal r)
          else parse_unsigned_decimal t)"

definition string_to_number :: "string \<Rightarrow> jsnum" where
  "string_to_number s =
     (let t = js_trim s in
      if t = [] then Fin 0
      else (case parse_non_decimal t of
              Some n \<Rightarrow> Fin (of_nat n)
            | None \<Rightarrow> (case parse_decimal t of Some x \<Rightarrow> x | None \<Rightarrow> NaN)))"

subsection \<open>Number::toString\<close>

definition is_int_rat :: "rat \<Rightarrow> bool" where
  "is_int_rat q \<longleftrightarrow> snd (quotient_of q) = 1"

fun dec_scale :: "nat \<Rightarrow> rat \<Rightarrow> nat" where
  \<comment> \<open>the least \<open>j\<close> (below the fuel) with \<open>q * 10^j\<close> integral\<close>
  "dec_scale 0 q = 0"
| "dec_scale (Suc f) q = (if is_int_rat q then 0 else Suc (dec_scale f (10 * q)))"

definition scale_fuel :: nat where
  \<comment> \<open>a binary64 value has at most 1074 decimal places\<close>
  "scale_fuel = 1100"

definition decimal_repr :: "rat \<Rightarrow> string \<times> int" where
  \<comment> \<open>for \<open>q > 0\<close>: the digits of \<open>s\<close> (no trailing zero) and \<open>n\<close> with
      \<open>q = s * 10^(n - length digits)\<close>\<close>
  "decimal_repr q =
     (let j = dec_scale scale_fuel q;
          D = nat_to_digits (nat (fst (quotient_of (q * 10 ^ j))));
          z = length (takeWhile (\<lambda>c. c = CHR ''0'') (rev D))
      in (take (length D - z) D, int (length D) - int j))"

definition exponent_string :: "int \<Rightarrow> string" where
  "exponent_string e = CHR ''e'' # (if e < 0 then CHR ''-'' else CHR ''+'') # nat_to_digits (nat \<bar>e\<bar>)"

definition positive_to_string :: "rat \<Rightarrow> string" where
  "positive_to_string q =
     (let (sd, n) = decimal_repr q; k = int (length sd)
      in if k \<le> n \<and> n \<le> 21 then sd @ replicate (nat (n - k)) CHR ''0''
         else if 0 < n \<and> n \<le> 21 then take (nat n) sd @ CHR ''.'' # drop (nat n) sd
         else if -6 < n \<and> n \<le> 0 then ''0.'' @ replicate (nat (- n)) CHR ''0'' @ sd
         else if k = 1 then sd @ exponent_string (n - 1)
         else [hd sd] @ ''.'' @ tl sd @ exponent_string (n - 1))"

fun number_to_string :: "jsnum \<Rightarrow> string" where
  "number_to_string NaN = ''NaN''"
| "number_to_string PosInf = ''Infinity''"
| "number_to_string NegInf = ''-Infinity''"
| "number_to_string (Fin q) =
     (if q = 0 then ''0'' else if q < 0 then CHR ''-'' # positive_to_string (- q)
      else positive_to_string q)"

definition num_char :: "char \<Rightarrow> bool" where
  \<comment> \<open>the characters Number::toString produces\<close>
  "num_char c \<longleftrightarrow> is_digit c \<or> c \<in> set ''.e+-''"

lemmas jsnum_defs [model_eval] = is_nan_def num_add_def js_trunc_def pow10_def js_ws_def js_trim_def
  radix_digit_def parse_non_decimal_def exponent_digits_def split_fraction_def
  parse_unsigned_decimal_def parse_decimal_def string_to_number_def is_int_rat_def
  scale_fuel_def decimal_repr_def exponent_string_def positive_to_string_def

subsection \<open>Number::toString then StringToNumber is the identity\<close>

lemma is_int_rat_iff: "is_int_rat q \<longleftrightarrow> q = of_int (fst (quotient_of q))"
proof -
  obtain a b where qo: "quotient_of q = (a, b)" by (cases "quotient_of q")
  have q: "q = of_int a / of_int b" using quotient_of_div [OF qo] .
  have "b > 0" using quotient_of_denom_pos [OF qo] .
  show ?thesis
  proof
    assume "is_int_rat q"
    then have "b = 1" using qo by (simp add: is_int_rat_def)
    then show "q = of_int (fst (quotient_of q))" using q qo by simp
  next
    assume "q = of_int (fst (quotient_of q))"
    then have "quotient_of q = (fst (quotient_of q), 1)"
      by (metis of_int_rat quotient_of_Fract normalize_stable coprime_1_right zero_less_one)
    then show "is_int_rat q" unfolding is_int_rat_def by (metis snd_conv)
  qed
qed

lemma is_int_rat_of_int: "is_int_rat (of_int k)"
  by (simp add: is_int_rat_def of_int_rat quotient_of_Fract)

lemma is_int_rat_minus: "is_int_rat (- q) \<longleftrightarrow> is_int_rat q"
proof
  assume "is_int_rat (- q)"
  then have "q = of_int (- fst (quotient_of (- q)))" using is_int_rat_iff [of "- q"] by simp
  then show "is_int_rat q" by (metis is_int_rat_of_int)
next
  assume "is_int_rat q"
  then have "- q = of_int (- fst (quotient_of q))" using is_int_rat_iff [of q] by simp
  then show "is_int_rat (- q)" by (metis is_int_rat_of_int)
qed

lemma dec_scale_exact:
  "\<exists>j\<le>f. is_int_rat (q * 10 ^ j) \<Longrightarrow> is_int_rat (q * 10 ^ dec_scale f q)"
proof (induction f arbitrary: q)
  case 0
  then show ?case by simp
next
  case (Suc f)
  show ?case
  proof (cases "is_int_rat q")
    case True
    then show ?thesis by simp
  next
    case False
    with Suc.prems obtain j where j: "j \<le> Suc f" "is_int_rat (q * 10 ^ j)" by blast
    with False obtain i where i: "j = Suc i" by (cases j) auto
    have sh: "\<And>k. q * 10 ^ Suc k = 10 * q * 10 ^ k" by simp
    from j i have "\<exists>i\<le>f. is_int_rat (10 * q * 10 ^ i)" by (metis Suc_le_mono sh)
    then have "is_int_rat (10 * q * 10 ^ dec_scale f (10 * q))" by (rule Suc.IH)
    with False show ?thesis by (simp only: dec_scale.simps if_False sh)
  qed
qed

lemma dec_scale_le:
  "is_int_rat (q * 10 ^ j) \<Longrightarrow> j \<le> f \<Longrightarrow> dec_scale f q \<le> j"
proof (induction f arbitrary: q j)
  case (Suc f)
  show ?case
  proof (cases "is_int_rat q")
    case False
    with Suc.prems obtain j' where j: "j = Suc j'" by (cases j) simp_all
    with Suc.prems have "is_int_rat ((10 * q) * 10 ^ j')" "j' \<le> f" by (simp_all add: ac_simps)
    with False j show ?thesis using Suc.IH by simp
  qed simp
qed simp

lemma dyadic_scaled_int: "is_int_rat (of_int m / 2 ^ k * 10 ^ k)"
proof -
  have "(10 :: rat) ^ k = 2 ^ k * 5 ^ k" by (simp add: power_mult_distrib [symmetric])
  then have "of_int m / 2 ^ k * 10 ^ k = (of_int (m * 5 ^ k) :: rat)" by simp
  then show ?thesis by (simp only: is_int_rat_of_int)
qed

lemma pow10_add: "pow10 (a + b) = pow10 a * pow10 b"
  by (simp add: pow10_def power_int_add)

lemma pow10_nat: "pow10 (int n) = 10 ^ n"
  by (simp add: pow10_def)

lemma decimal_repr_correct:
  assumes "0 < q" "is_int_rat (q * 10 ^ dec_scale scale_fuel q)" "decimal_repr q = (sd, n)"
  shows "sd \<noteq> [] \<and> list_all is_digit sd \<and> of_nat (digits_to_nat sd) * pow10 (n - int (length sd)) = q"
proof -
  define j where "j = dec_scale scale_fuel q"
  define S where "S = nat (fst (quotient_of (q * 10 ^ j)))"
  define D where "D = nat_to_digits S"
  define z where "z = length (takeWhile (\<lambda>c. c = CHR ''0'') (rev D))"
  have repr: "sd = take (length D - z) D" "n = int (length D) - int j"
    using assms(3) unfolding decimal_repr_def Let_def j_def S_def D_def z_def by auto
  have qS: "q * 10 ^ j = of_int (fst (quotient_of (q * 10 ^ j)))"
    using assms(2) is_int_rat_iff unfolding j_def by blast
  moreover have "0 < q * 10 ^ j" using assms(1) by simp
  ultimately have Spos: "0 < S" and Seq: "q * 10 ^ j = of_nat S" unfolding S_def by linarith+
  have D: "D = sd @ replicate z CHR ''0''"
    using split_trailing [of D "CHR ''0''"] unfolding repr z_def .
  have "sd \<noteq> []"
  proof
    assume "sd = []"
    then have "hd D = CHR ''0''" using D nat_to_digits_nonempty [of S] unfolding D_def by (cases z) auto
    with nat_to_digits_hd [OF Spos] show False unfolding D_def by simp
  qed
  moreover have "list_all is_digit sd"
    using nat_to_digits_correct [of S] D unfolding D_def list_all_iff by (metis Un_iff set_append)
  moreover have "of_nat (digits_to_nat sd) * pow10 (n - int (length sd)) = q"
  proof -
    have "S = digits_to_nat sd * 10 ^ z"
      using nat_to_digits_correct [of S] D digits_to_nat_concat [of sd "replicate z CHR ''0''"]
      unfolding D_def by simp
    then have "q * 10 ^ j = of_nat (digits_to_nat sd) * 10 ^ z" using Seq by simp
    then have q: "q = of_nat (digits_to_nat sd) * 10 ^ z / 10 ^ j"
      by (simp add: field_simps)
    have "n - int (length sd) = int z - int j"
      using repr D by simp
    moreover have "pow10 (int z - int j) = 10 ^ z / 10 ^ j"
      by (simp add: pow10_def power_int_diff)
    ultimately show ?thesis using q by simp
  qed
  ultimately show ?thesis by blast
qed

lemma num_char_not_ws: "num_char c \<Longrightarrow> \<not> js_ws c"
  by (auto simp: num_char_def is_digit_def js_ws_def)

lemma js_trim_num_chars: "list_all num_char t \<Longrightarrow> js_trim t = t"
proof -
  assume "list_all num_char t"
  then have nw: "\<forall>c \<in> set (rev t). \<not> js_ws c" "\<forall>c \<in> set t. \<not> js_ws c"
    by (auto simp: list_all_iff dest: num_char_not_ws)
  have "dropWhile js_ws t = t" using nw(2) by (cases t) simp_all
  moreover have "dropWhile js_ws (rev t) = rev t" using nw(1) by (cases "rev t") simp_all
  ultimately show ?thesis by (simp add: js_trim_def)
qed

lemma parse_non_decimal_num_chars: "list_all num_char t \<Longrightarrow> parse_non_decimal t = None"
  by (cases t rule: remdups_adj.cases) (auto simp: parse_non_decimal_def num_char_def is_digit_def)

lemma digit_not_special:
  "is_digit c \<Longrightarrow> c \<noteq> CHR ''+'' \<and> c \<noteq> CHR ''-'' \<and> c \<noteq> CHR ''.'' \<and> c \<noteq> CHR ''e'' \<and> c \<noteq> CHR ''E''"
  by (auto simp: is_digit_def)

lemma digits_takeWhile:
  "list_all is_digit ip \<Longrightarrow> (ex = [] \<or> \<not> is_digit (hd ex)) \<Longrightarrow>
    takeWhile is_digit (ip @ ex) = ip \<and> dropWhile is_digit (ip @ ex) = ex"
  by (cases ex) (auto simp: list_all_iff)

lemma digits_not_infinity: "ip \<noteq> [] \<Longrightarrow> list_all is_digit ip \<Longrightarrow> ip @ r \<noteq> ''Infinity''"
  by (cases ip) (auto simp: is_digit_def)

lemma parse_exponent_string: "parse_exponent (exponent_string e) = Some e"
  using nat_to_digits_correct [of "nat \<bar>e\<bar>"]
  by (auto simp: exponent_string_def exponent_digits_def list_all_iff)

lemma parse_unsigned_nodot:
  assumes "ip \<noteq> []" "list_all is_digit ip" "parse_exponent ex = Some e"
    "ex = [] \<or> hd ex = CHR ''e''"
  shows "parse_unsigned_decimal (ip @ ex) = Some (Fin (of_nat (digits_to_nat ip) * pow10 e))"
proof -
  have "ex = [] \<or> \<not> is_digit (hd ex)" using assms(4) by (auto simp: is_digit_def)
  then have tw: "takeWhile is_digit (ip @ ex) = ip" "dropWhile is_digit (ip @ ex) = ex"
    using digits_takeWhile assms(2) by blast+
  have "split_fraction ex = ([], ex)"
    using assms(4) by (cases ex) (auto simp: split_fraction_def)
  with tw assms digits_not_infinity [OF assms(1,2)] show ?thesis
    by (simp add: parse_unsigned_decimal_def)
qed

lemma parse_unsigned_dot:
  assumes "ip \<noteq> []" "list_all is_digit ip" "list_all is_digit fp" "parse_exponent ex = Some e"
    "ex = [] \<or> hd ex = CHR ''e''"
  shows "parse_unsigned_decimal (ip @ CHR ''.'' # fp @ ex)
    = Some (Fin (of_nat (digits_to_nat (ip @ fp)) * pow10 (e - int (length fp))))"
proof -
  have nd: "ex = [] \<or> \<not> is_digit (hd ex)" using assms(5) by (auto simp: is_digit_def)
  have "\<not> is_digit CHR ''.''" by (simp add: is_digit_def)
  then have tw: "takeWhile is_digit (ip @ CHR ''.'' # fp @ ex) = ip"
    "dropWhile is_digit (ip @ CHR ''.'' # fp @ ex) = CHR ''.'' # fp @ ex"
    using digits_takeWhile [OF assms(2), of "CHR ''.'' # fp @ ex"] by simp_all
  have "split_fraction (CHR ''.'' # fp @ ex) = (fp, ex)"
    using digits_takeWhile [OF assms(3) nd] by (simp add: split_fraction_def)
  with tw assms digits_not_infinity [OF assms(1,2)] show ?thesis
    by (simp add: parse_unsigned_decimal_def)
qed

lemma string_to_number_unsigned:
  "t \<noteq> [] \<Longrightarrow> list_all num_char t \<Longrightarrow> is_digit (hd t) \<Longrightarrow>
    string_to_number t = (case parse_unsigned_decimal t of Some x \<Rightarrow> x | None \<Rightarrow> NaN)"
  using digit_not_special [of "hd t"]
  by (cases t) (simp_all add: string_to_number_def js_trim_num_chars parse_non_decimal_num_chars
      parse_decimal_def)

lemma string_to_number_minus:
  "t \<noteq> [] \<Longrightarrow> list_all num_char t \<Longrightarrow> is_digit (hd t) \<Longrightarrow>
    string_to_number (CHR ''-'' # t) = (case parse_unsigned_decimal t of Some x \<Rightarrow> num_neg x | None \<Rightarrow> NaN)"
proof -
  assume a: "t \<noteq> []" "list_all num_char t" "is_digit (hd t)"
  then have "list_all num_char (CHR ''-'' # t)" by (simp add: num_char_def)
  with a show ?thesis
    by (simp add: string_to_number_def js_trim_num_chars parse_non_decimal_num_chars
        parse_decimal_def split: option.split)
qed

lemma string_to_number_digits:
  assumes "ds \<noteq> []" "list_all is_digit ds"
  shows "string_to_number ds = Fin (of_nat (digits_to_nat ds))"
proof -
  have nc: "list_all num_char ds" using assms(2) by (auto simp: list_all_iff num_char_def)
  have hd: "is_digit (hd ds)" using assms by (cases ds) simp_all
  have "parse_unsigned_decimal (ds @ []) = Some (Fin (of_nat (digits_to_nat ds) * pow10 0))"
    using assms by (intro parse_unsigned_nodot) simp_all
  then show ?thesis using string_to_number_unsigned [OF assms(1) nc hd] by (simp add: pow10_def)
qed

lemma exponent_string_chars: "list_all num_char (exponent_string e) \<and> hd (exponent_string e) = CHR ''e''"
  using nat_to_digits_correct [of "nat \<bar>e\<bar>"]
  by (auto simp: exponent_string_def num_char_def list_all_iff)

lemma positive_to_string_parse:
  assumes "0 < q" "\<exists>j\<le>scale_fuel. is_int_rat (q * 10 ^ j)"
  shows "positive_to_string q \<noteq> [] \<and> list_all num_char (positive_to_string q)
    \<and> is_digit (hd (positive_to_string q))
    \<and> parse_unsigned_decimal (positive_to_string q) = Some (Fin q)"
proof -
  obtain sd n where r: "decimal_repr q = (sd, n)" by (cases "decimal_repr q")
  have c: "sd \<noteq> []" "list_all is_digit sd"
    "of_nat (digits_to_nat sd) * pow10 (n - int (length sd)) = q"
    using decimal_repr_correct [OF assms(1) dec_scale_exact [OF assms(2)] r] by simp_all
  have nc: "list_all num_char sd" using c(2) by (simp add: list_all_iff num_char_def)
  have zc: "list_all num_char (replicate m CHR ''0'')" "list_all is_digit (replicate m CHR ''0'')" for m
    by (simp_all add: list_all_iff num_char_def is_digit_def)
  have hd_sd: "is_digit (hd sd)" using c(1,2) by (cases sd) simp_all
  let ?k = "int (length sd)"
  consider (r1) "?k \<le> n \<and> n \<le> 21" | (r2) "\<not> (?k \<le> n \<and> n \<le> 21)" "0 < n \<and> n \<le> 21"
    | (r3) "\<not> (?k \<le> n \<and> n \<le> 21)" "\<not> (0 < n \<and> n \<le> 21)" "-6 < n \<and> n \<le> 0"
    | (r4) "\<not> (?k \<le> n \<and> n \<le> 21)" "\<not> (0 < n \<and> n \<le> 21)" "\<not> (-6 < n \<and> n \<le> 0)" "?k = 1"
    | (r5) "\<not> (?k \<le> n \<and> n \<le> 21)" "\<not> (0 < n \<and> n \<le> 21)" "\<not> (-6 < n \<and> n \<le> 0)" "?k \<noteq> 1"
    by blast
  then show ?thesis
  proof cases
    case r1
    let ?s = "sd @ replicate (nat (n - ?k)) CHR ''0''"
    have s: "positive_to_string q = ?s" using r1 r by (auto simp: positive_to_string_def)
    have "parse_unsigned_decimal ?s = Some (Fin (of_nat (digits_to_nat ?s) * pow10 0))"
      using parse_unsigned_nodot [of ?s "[]" 0] c(1,2) zc by simp
    moreover have "of_nat (digits_to_nat ?s) = of_nat (digits_to_nat sd) * pow10 (n - ?k)"
      using r1 by (simp add: digits_to_nat_concat pow10_def power_int_def)
    ultimately show ?thesis using s c(1,3) nc zc hd_sd by (simp add: pow10_def)
  next
    case r2
    let ?i = "take (nat n) sd" and ?f = "drop (nat n) sd"
    have s: "positive_to_string q = ?i @ CHR ''.'' # ?f @ []"
      using r2 r by (auto simp: positive_to_string_def)
    have i: "?i \<noteq> []" "list_all is_digit ?i" "list_all is_digit ?f"
      using r2 c(1,2) by (auto simp: list_all_iff dest: in_set_takeD in_set_dropD)
    have "parse_unsigned_decimal (?i @ CHR ''.'' # ?f @ [])
      = Some (Fin (of_nat (digits_to_nat sd) * pow10 (0 - int (length ?f))))"
      using parse_unsigned_dot [OF i, of "[]" 0] by simp
    moreover have "0 - int (length ?f) = n - ?k" using r2 by simp
    moreover have "hd ?i = hd sd" using r2 c(1) by (simp add: hd_take)
    moreover have "list_all num_char (?i @ CHR ''.'' # ?f @ [])"
      using nc by (auto simp: list_all_iff num_char_def dest: in_set_takeD in_set_dropD)
    ultimately show ?thesis using s i c(3) hd_sd by simp
  next
    case r3
    let ?f = "replicate (nat (- n)) CHR ''0'' @ sd"
    have s: "positive_to_string q = ''0'' @ CHR ''.'' # ?f @ []"
      using r3 r by (auto simp: positive_to_string_def)
    have i: "''0'' \<noteq> []" "list_all is_digit ''0''" "list_all is_digit ?f"
      using c(2) zc by (simp_all add: is_digit_def)
    have "parse_unsigned_decimal (''0'' @ CHR ''.'' # ?f @ [])
      = Some (Fin (of_nat (digits_to_nat (''0'' @ ?f)) * pow10 (0 - int (length ?f))))"
      using parse_unsigned_dot [OF i, of "[]" 0] by simp
    moreover have "digits_to_nat (''0'' @ ?f) = digits_to_nat sd"
      using digits_to_nat_leading_zeros [of "Suc (nat (- n))" sd] by simp
    moreover have "0 - int (length ?f) = n - ?k" using r3 by simp
    ultimately show ?thesis using s c(3) nc zc by (simp add: num_char_def is_digit_def)
  next
    case r4
    have s: "positive_to_string q = sd @ exponent_string (n - 1)"
      using r4 r by (auto simp: positive_to_string_def)
    have "parse_unsigned_decimal (sd @ exponent_string (n - 1))
      = Some (Fin (of_nat (digits_to_nat sd) * pow10 (n - 1)))"
      using parse_unsigned_nodot [OF c(1,2) parse_exponent_string] exponent_string_chars by simp
    then show ?thesis using s r4 c nc hd_sd exponent_string_chars [of "n - 1"] by simp
  next
    case r5
    let ?f = "tl sd"
    have s: "positive_to_string q = [hd sd] @ CHR ''.'' # ?f @ exponent_string (n - 1)"
      using r5 r by (auto simp: positive_to_string_def)
    have i: "[hd sd] \<noteq> []" "list_all is_digit [hd sd]" "list_all is_digit ?f"
      using c(1,2) hd_sd by (cases sd; simp)+
    have "parse_unsigned_decimal ([hd sd] @ CHR ''.'' # ?f @ exponent_string (n - 1))
      = Some (Fin (of_nat (digits_to_nat ([hd sd] @ ?f)) * pow10 (n - 1 - int (length ?f))))"
      using parse_unsigned_dot [OF i parse_exponent_string] exponent_string_chars by simp
    moreover have "[hd sd] @ ?f = sd" using c(1) by simp
    moreover have "n - 1 - int (length ?f) = n - ?k" using c(1) by (cases sd) simp_all
    moreover have "list_all num_char ?f" using nc c(1) by (cases sd) simp_all
    ultimately show ?thesis using s c nc hd_sd exponent_string_chars [of "n - 1"] i
      by (simp add: num_char_def)
  qed
qed

text \<open>
  Converting a finite number to a string (as \<open>+\<close> does when it concatenates) and back
  with \<open>Number(...)\<close> gives the same number, in each of the four formats of
  Number::toString (integer, fixed point, small fraction, exponent), for every value with a
  terminating decimal expansion of at most 1100 places, which includes every binary64 value.
\<close>

theorem number_to_string_roundtrip:
  assumes "\<exists>j\<le>scale_fuel. is_int_rat (q * 10 ^ j)"
  shows "string_to_number (number_to_string (Fin q)) = Fin q"
proof -
  consider "q = 0" | "0 < q" | "q < 0" by linarith
  then show ?thesis
  proof cases
    case 1
    then show ?thesis by (simp add: string_to_number_def js_trim_def js_ws_def parse_non_decimal_def
        parse_decimal_def parse_unsigned_decimal_def split_fraction_def is_digit_def digit_value_def
        pow10_def)
  next
    case 2
    with positive_to_string_parse [OF 2 assms] show ?thesis
      by (simp add: string_to_number_unsigned)
  next
    case 3
    have "\<exists>j\<le>scale_fuel. is_int_rat (- q * 10 ^ j)"
      using assms by (simp add: is_int_rat_minus)
    with positive_to_string_parse [of "- q"] 3 show ?thesis
      by (simp add: string_to_number_minus)
  qed
qed


text \<open>
  The search for the decimal scale in Number::toString ends within its fuel for
  every finite binary64 value: a value \<open>m / 2^k\<close> with \<open>k \<le> 1074\<close> (every normal and
  subnormal double has this form) has \<open>m / 2^k * 10^k = m * 5^k\<close> integral, so
  \<open>dec_scale\<close> stops at a scale of at most \<open>k \<le> 1074 < 1100\<close> with an integral
  \<open>q * 10^j\<close>; the premise of C17 therefore holds for every double.
\<close>

theorem dec_scale_terminates:
  fixes m :: int and k :: nat
  assumes "k \<le> 1074"
  shows "dec_scale scale_fuel (of_int m / 2 ^ k) \<le> k
    \<and> is_int_rat (of_int m / 2 ^ k * 10 ^ dec_scale scale_fuel (of_int m / 2 ^ k))"
proof
  have k: "k \<le> scale_fuel" using assms by (simp add: scale_fuel_def)
  show "dec_scale scale_fuel (of_int m / 2 ^ k) \<le> k" by (rule dec_scale_le [OF dyadic_scaled_int k])
  show "is_int_rat (of_int m / 2 ^ k * 10 ^ dec_scale scale_fuel (of_int m / 2 ^ k))"
    using dyadic_scaled_int k by (intro dec_scale_exact) blast
qed

end

