(* ===== verification/JsValue.thy ===== *)
theory JsValue
  imports Calendar JsNumber
begin

text \<open>
  JavaScript values as the component handles them: form-control values, route parameters,
  products and \<open>Date\<close> objects. The operations are the abstract operations of ECMA-262
  the component's expressions perform: ToBoolean (\<open>if (a && b)\<close>), \<open>typeof\<close>,
  ToNumber (\<open>Number(v)\<close>, unary \<open>+\<close>), ToPrimitive and ToString (the \<open>+\<close> operator),
  property read and write. What the language leaves to the implementation is a parameter
  of type \<open>platform\<close>: the local time-zone offset (fixed, no daylight saving), the
  time-zone name printed by \<open>Date.prototype.toString\<close>, and the fallback of \<open>Date.parse\<close>
  for strings outside the ISO format. A \<open>Date\<close> is held by value (its time value): the
  component never shares one between two places.
\<close>

datatype jsval =
    JUndefined
  | JNull
  | JBool bool
  | JNumber jsnum
  | JString string
  | JDate time_value
  | JObject "(string \<times> jsval) list"

record platform =
  tz_offset :: int
  tz_name :: string
  date_fallback :: "string \<Rightarrow> time_value"

fun truthy :: "jsval \<Rightarrow> bool" where
  \<comment> \<open>ToBoolean\<close>
  "truthy JUndefined = False"
| "truthy JNull = False"
| "truthy (JBool b) = b"
| "truthy (JNumber n) = (n \<noteq> NaN \<and> n \<noteq> Fin 0)"
| "truthy (JString s) = (s \<noteq> [])"
| "truthy (JDate tv) = True"
| "truthy (JObject ps) = True"

fun js_typeof :: "jsval \<Rightarrow> string" where
  "js_typeof JUndefined = ''undefined''"
| "js_typeof JNull = ''object''"
| "js_typeof (JBool b) = ''boolean''"
| "js_typeof (JNumber n) = ''number''"
| "js_typeof (JString s) = ''string''"
| "js_typeof (JDate tv) = ''object''"
| "js_typeof (JObject ps) = ''object''"

fun to_number :: "jsval \<Rightarrow> jsnum" where
  \<comment> \<open>ToNumber; on objects through ToPrimitive with hint number: a Date's \<open>valueOf\<close> is
      its time value, a plain object becomes \<open>"[object Object]"\<close>, which is NaN\<close>
  "to_number JUndefined = NaN"
| "to_number JNull = Fin 0"
| "to_number (JBool b) = Fin (if b then 1 else 0)"
| "to_number (JNumber n) = n"
| "to_number (JString s) = string_to_number s"
| "to_number (JDate tv) = (case tv of None \<Rightarrow> NaN | Some t \<Rightarrow> Fin (of_int t))"
| "to_number (JObject ps) = string_to_number ''[object Object]''"

definition get_prop :: "jsval \<Rightarrow> string \<Rightarrow> jsval" where
  \<comment> \<open>\<open>o.k\<close>: a missing property reads as \<open>undefined\<close>\<close>
  "get_prop v k = (case v of JObject ps \<Rightarrow> (case map_of ps k of Some x \<Rightarrow> x | None \<Rightarrow> JUndefined)
                           | _ \<Rightarrow> JUndefined)"

definition set_prop :: "jsval \<Rightarrow> string \<Rightarrow> jsval \<Rightarrow> jsval" where
  \<comment> \<open>\<open>o.k = x\<close> on an object: overwrite in place or append\<close>
  "set_prop v k x = (case v of JObject ps \<Rightarrow> JObject (AList.update k x ps) | _ \<Rightarrow> v)"

subsection \<open>Date.prototype.toString\<close>

definition local_time :: "platform \<Rightarrow> int \<Rightarrow> int" where
  "local_time p t = t + tz_offset p"

definition utc_time :: "platform \<Rightarrow> int \<Rightarrow> int" where
  "utc_time p t = t - tz_offset p"

definition pad_digits :: "nat \<Rightarrow> nat \<Rightarrow> string" where
  "pad_digits w n = (let ds = nat_to_digits n in replicate (w - length ds) CHR ''0'' @ ds)"

definition week_day_names :: "string list" where
  "week_day_names = [''Sun'', ''Mon'', ''Tue'', ''Wed'', ''Thu'', ''Fri'', ''Sat'']"

definition month_names :: "string list" where
  "month_names = [''Jan'', ''Feb'', ''Mar'', ''Apr'', ''May'', ''Jun'', ''Jul'', ''Aug'', ''Sep'',
    ''Oct'', ''Nov'', ''Dec'']"

definition date_string :: "int \<Rightarrow> string" where
  "date_string t =
     (let y = year_from_time t
      in week_day_names ! nat (week_day t) @ '' '' @ month_names ! nat (month_from_time t) @ '' ''
         @ pad_digits 2 (nat (date_from_time t)) @ '' '' @ (if 0 \<le> y then [] else ''-'')
         @ pad_digits 4 (nat \<bar>y\<bar>))"

definition time_string :: "int \<Rightarrow> string" where
  "time_string t =
     (let ms = time_within_day t
      in pad_digits 2 (nat (ms div 3600000)) @ '':'' @ pad_digits 2 (nat (ms div 60000 mod 60))
         @ '':'' @ pad_digits 2 (nat (ms div 1000 mod 60)) @ '' GMT'')"

definition time_zone_string :: "platform \<Rightarrow> string" where
  "time_zone_string p =
     (let off = tz_offset p; m = \<bar>off\<bar> div 60000
      in (if 0 \<le> off then ''+'' else ''-'') @ pad_digits 2 (nat (m div 60)) @ pad_digits 2 (nat (m mod 60))
         @ (if tz_name p = [] then [] else '' ('' @ tz_name p @ '')''))"

definition date_to_string :: "platform \<Rightarrow> time_value \<Rightarrow> string" where
  "date_to_string p tv =
     (case tv of None \<Rightarrow> ''Invalid Date''
      | Some t \<Rightarrow> date_string (local_time p t) @ '' '' @ time_string (local_time p t) @ time_zone_string p)"

subsection \<open>ToPrimitive, ToString and the addition operator\<close>

fun to_primitive :: "platform \<Rightarrow> jsval \<Rightarrow> jsval" where
  \<comment> \<open>ToPrimitive with no hint: a Date converts to its string, other objects to
      \<open>"[object Object]"\<close>\<close>
  "to_primitive p (JDate tv) = JString (date_to_string p tv)"
| "to_primitive p (JObject ps) = JString ''[object Object]''"
| "to_primitive p v = v"

fun to_string :: "platform \<Rightarrow> jsval \<Rightarrow> string" where
  "to_string p JUndefined = ''undefined''"
| "to_string p JNull = ''null''"
| "to_string p (JBool b) = (if b then ''true'' else ''false'')"
| "to_string p (JNumber n) = number_to_string n"
| "to_string p (JString s) = s"
| "to_string p (JDate tv) = date_to_string p tv"
| "to_string p (JObject ps) = ''[object Object]''"

definition js_plus :: "platform \<Rightarrow> jsval \<Rightarrow> jsval \<Rightarrow> jsval" where
  \<comment> \<open>\<open>a + b\<close> (ApplyStringOrNumericBinaryOperator): string concatenation as soon as
      either primitive is a string, numeric addition otherwise\<close>
  "js_plus p a b =
     (let l = to_primitive p a; r = to_primitive p b in
      case (l, r) of
        (JString _, _) \<Rightarrow> JString (to_string p l @ to_string p r)
      | (_, JString _) \<Rightarrow> JString (to_string p l @ to_string p r)
      | _ \<Rightarrow> JNumber (num_add (to_number l) (to_number r)))"

lemmas jsvalue_defs [model_eval] = get_prop_def set_prop_def local_time_def utc_time_def
  pad_digits_def week_day_names_def month_names_def date_string_def time_string_def
  time_zone_string_def date_to_string_def js_plus_def

subsection \<open>Lemmas\<close>

lemma js_plus_number_string:
  "js_plus p (JNumber n) (JString s) = JString (number_to_string n @ s)"
  by (simp add: js_plus_def)

lemma js_plus_numbers:
  "js_plus p (JNumber a) (JNumber b) = JNumber (num_add a b)"
  by (simp add: js_plus_def)

lemma get_set_prop_same: "get_prop (set_prop (JObject ps) k x) k = x"
  by (simp add: get_prop_def set_prop_def update_conv')

lemma get_set_prop_other: "k' \<noteq> k \<Longrightarrow> get_prop (set_prop (JObject ps) k x) k' = get_prop (JObject ps) k'"
  by (simp add: get_prop_def set_prop_def update_conv')

end
