(* ===== verification/JsDate.thy ===== *)
theory JsDate
  imports JsValue
begin

text \<open>
  The \<open>Date\<close> operations of \<open>calcularDataFimGarantia\<close> and \<open>dateValidator\<close>:
  \<open>new Date(value)\<close> (ECMA-262 21.4.2.1 with one argument), \<open>Date.parse\<close> on the Date
  Time String Format (21.4.1.32; other strings go to the implementation's fallback),
  \<open>getMonth\<close>, \<open>setMonth\<close> with one argument, \<open>getTime\<close> and \<open>TimeClip\<close>. Date-only
  ISO strings are read as UTC, date-time strings without an offset as local time, as the
  standard requires; \<open>getMonth\<close> and \<open>setMonth\<close> work in local time.
\<close>

definition time_clip :: "jsnum \<Rightarrow> time_value" where
  "time_clip x = (case x of Fin q \<Rightarrow> if \<bar>q\<bar> > of_int max_time then None else Some (js_trunc q)
                          | _ \<Rightarrow> None)"

subsection \<open>The Date Time String Format\<close>

definition fixed_digits :: "nat \<Rightarrow> string \<Rightarrow> (nat \<times> string) option" where
  "fixed_digits n s =
     (if n \<le> length s \<and> list_all is_digit (take n s) then Some (digits_to_nat (take n s), drop n s)
      else None)"

definition iso_year :: "string \<Rightarrow> (int \<times> string) option" where
  \<comment> \<open>\<open>YYYY\<close>, or an expanded year \<open>\<plusminus>YYYYYY\<close>; \<open>-000000\<close> is not a year\<close>
  "iso_year s =
     (case s of
        [] \<Rightarrow> None
      | c # r \<Rightarrow>
          if c = CHR ''+'' then map_option (\<lambda>(v, r'). (int v, r')) (fixed_digits 6 r)
          else if c = CHR ''-'' then
            (case fixed_digits 6 r of None \<Rightarrow> None
             | Some (v, r') \<Rightarrow> if v = 0 then None else Some (- int v, r'))
          else map_option (\<lambda>(v, r'). (int v, r')) (fixed_digits 4 s))"

definition iso_field :: "char \<Rightarrow> string \<Rightarrow> (nat \<times> string) option" where
  \<comment> \<open>a separator followed by two digits\<close>
  "iso_field sep s = (case s of c # r \<Rightarrow> if c = sep then fixed_digits 2 r else None | [] \<Rightarrow> None)"

definition iso_month_day :: "string \<Rightarrow> nat \<times> nat \<times> string" where
  \<comment> \<open>\<open>-MM\<close> and \<open>-DD\<close>, each optional; absent fields are 1\<close>
  "iso_month_day s =
     (case iso_field CHR ''-'' s of
        None \<Rightarrow> (1, 1, s)
      | Some (mo, r) \<Rightarrow> (case iso_field CHR ''-'' r of None \<Rightarrow> (mo, 1, r) | Some (d, r') \<Rightarrow> (mo, d, r')))"

definition iso_offset :: "string \<Rightarrow> (int option) option" where
  \<comment> \<open>what follows the time: nothing (\<open>Some None\<close>: local time), \<open>Z\<close>, or \<open>\<plusminus>HH:mm\<close>
      (\<open>Some (Some minutes east of UTC)\<close>); \<open>None\<close> for anything else\<close>
  "iso_offset s =
     (if s = [] then Some None
      else if s = ''Z'' then Some (Some 0)
      else (case s of
              c # r \<Rightarrow>
                if c = CHR ''+'' \<or> c = CHR ''-'' then
                  (case fixed_digits 2 r of
                     Some (h, r') \<Rightarrow>
                       (case iso_field CHR '':'' r' of
                          Some (m, []) \<Rightarrow>
                            if h \<le> 23 \<and> m \<le> 59
                            then Some (Some ((if c = CHR ''-'' then -1 else 1) * int (h * 60 + m)))
                            else None
                        | _ \<Rightarrow> None)
                   | None \<Rightarrow> None)
                else None
            | [] \<Rightarrow> None))"

definition iso_time :: "string \<Rightarrow> (nat \<times> nat \<times> nat \<times> nat \<times> string) option" where
  \<comment> \<open>\<open>THH:mm\<close>, optionally \<open>:ss\<close> and \<open>.sss\<close>; the rest is returned\<close>
  "iso_time s =
     (case s of
        c # r \<Rightarrow>
          if c = CHR ''T'' then
            (case fixed_digits 2 r of
               None \<Rightarrow> None
             | Some (h, r1) \<Rightarrow>
                 (case iso_field CHR '':'' r1 of
                    None \<Rightarrow> None
                  | Some (mi, r2) \<Rightarrow>
                      (case iso_field CHR '':'' r2 of
                         None \<Rightarrow> Some (h, mi, 0, 0, r2)
                       | Some (se, r3) \<Rightarrow>
                           (case r3 of
                              d # r4 \<Rightarrow>
                                if d = CHR ''.'' then
                                  (case fixed_digits 3 r4 of
                                     None \<Rightarrow> None
                                   | Some (ms, r5) \<Rightarrow> Some (h, mi, se, ms, r5))
                                else Some (h, mi, se, 0, r3)
                            | [] \<Rightarrow> Some (h, mi, se, 0, r3)))))
          else None
      | [] \<Rightarrow> None)"

definition iso_parse :: "platform \<Rightarrow> string \<Rightarrow> int option" where
  "iso_parse p s =
     (case iso_year s of
        None \<Rightarrow> None
      | Some (y, r) \<Rightarrow>
          (let (mo, d, r') = iso_month_day r
           in if mo < 1 \<or> 12 < mo \<or> d < 1 \<or> int d > days_in_month y (int mo - 1) then None
              else
                (let dy = make_day y (int mo - 1) (int d) in
                 if r' = [] then Some (make_date dy 0)
                 else
                   (case iso_time r' of
                      None \<Rightarrow> None
                    | Some (h, mi, se, ms, r'') \<Rightarrow>
                        if 24 < h \<or> 59 < mi \<or> 59 < se \<or> (h = 24 \<and> (mi \<noteq> 0 \<or> se \<noteq> 0 \<or> ms \<noteq> 0))
                        then None
                        else
                          (let t = make_date dy (make_time (int h) (int mi) (int se) (int ms)) in
                           case iso_offset r'' of
                             None \<Rightarrow> None
                           | Some None \<Rightarrow> Some (utc_time p t)
                           | Some (Some off) \<Rightarrow> Some (t - off * 60000))))))"

definition date_parse :: "platform \<Rightarrow> string \<Rightarrow> time_value" where
  \<comment> \<open>\<open>Date.parse\<close>: the ISO format, or else whatever the implementation makes of it\<close>
  "date_parse p s = (case iso_parse p s of Some t \<Rightarrow> time_clip_int t | None \<Rightarrow> date_fallback p s)"

subsection \<open>Constructor, getters and setters\<close>

definition date_construct :: "platform \<Rightarrow> jsval \<Rightarrow> time_value" where
  \<comment> \<open>\<open>new Date(value)\<close>: a Date is copied, a string is parsed, anything else goes through
      ToNumber and TimeClip\<close>
  "date_construct p v =
     (case v of
        JDate tv \<Rightarrow> tv
      | _ \<Rightarrow> (case to_primitive p v of
               JString s \<Rightarrow> date_parse p s
             | prim \<Rightarrow> time_clip (to_number prim)))"

definition date_get_time :: "time_value \<Rightarrow> jsnum" where
  "date_get_time tv = (case tv of None \<Rightarrow> NaN | Some t \<Rightarrow> Fin (of_int t))"

definition date_get_month :: "platform \<Rightarrow> time_value \<Rightarrow> jsnum" where
  "date_get_month p tv = (case tv of None \<Rightarrow> NaN | Some t \<Rightarrow> Fin (of_int (month_from_time (local_time p t))))"

definition date_set_month :: "platform \<Rightarrow> time_value \<Rightarrow> jsval \<Rightarrow> time_value" where
  \<comment> \<open>\<open>setMonth(month)\<close>: keeps the local day of the month and time of day, lets
      \<open>MakeDay\<close> roll the year and an overlong day over, and clips the result\<close>
  "date_set_month p tv month =
     (let m = to_number month in
      case tv of
        None \<Rightarrow> None
      | Some t0 \<Rightarrow>
          (let t = local_time p t0 in
           case m of
             Fin q \<Rightarrow>
               time_clip_int (utc_time p (make_date
                 (make_day (year_from_time t) (js_trunc q) (date_from_time t)) (time_within_day t)))
           | _ \<Rightarrow> None))"

definition iso_date_string :: "nat \<Rightarrow> nat \<Rightarrow> nat \<Rightarrow> string" where
  \<comment> \<open>\<open>YYYY-MM-DD\<close>, the date-only form an \<open><input type="date">\<close> yields\<close>
  "iso_date_string y m d =
     pad_digits 4 y @ CHR ''-'' # pad_digits 2 m @ CHR ''-'' # pad_digits 2 d"

lemmas jsdate_defs [model_eval] = time_clip_def fixed_digits_def iso_year_def iso_field_def
  iso_month_day_def iso_offset_def iso_time_def iso_parse_def date_parse_def date_construct_def
  date_get_time_def date_get_month_def date_set_month_def iso_date_string_def

subsection \<open>Lemmas\<close>

lemma js_trunc_of_int [simp]: "js_trunc (of_int i) = i"
  by (simp add: js_trunc_def)

lemma local_utc_time [simp]: "local_time p (utc_time p t) = t"
  by (simp add: local_time_def utc_time_def)

lemma number_to_string_month:
  assumes "0 \<le> m" "m \<le> 11" shows "number_to_string (Fin (of_int m)) = nat_to_digits (nat m)"
  using month_cases [OF assms] by (elim disjE; hypsubst; code_simp)

lemma date_set_month_to_number:
  "to_number v = to_number v' \<Longrightarrow> date_set_month p tv v = date_set_month p tv v'"
  by (simp add: date_set_month_def)

lemma pad_digits_props:
  assumes "n < 10 ^ w" "0 < w"
  shows "length (pad_digits w n) = w \<and> list_all is_digit (pad_digits w n) \<and> digits_to_nat (pad_digits w n) = n"
  using nat_to_digits_length [OF assms] nat_to_digits_correct [of n]
  by (auto simp: pad_digits_def Let_def is_digit_def list_all_iff set_replicate_conv_if)

lemma fixed_digits_pad: "n < 10 ^ w \<Longrightarrow> 0 < w \<Longrightarrow> fixed_digits w (pad_digits w n @ r) = Some (n, r)"
  using pad_digits_props [of n w] by (simp add: fixed_digits_def)

lemma iso_year_pad:
  assumes "y < 10000" shows "iso_year (pad_digits 4 y @ r) = Some (int y, r)"
proof -
  have f: "fixed_digits 4 (pad_digits 4 y @ r) = Some (y, r)" using assms by (intro fixed_digits_pad) simp_all
  have "length (pad_digits 4 y) = 4 \<and> list_all is_digit (pad_digits 4 y)"
    using pad_digits_props [of y 4] assms by simp
  then obtain c cs where pc: "pad_digits 4 y = c # cs" "is_digit c" by (cases "pad_digits 4 y") auto
  then have "c \<noteq> CHR ''+''" "c \<noteq> CHR ''-''" by (auto simp: is_digit_def)
  with pc f show ?thesis by (simp add: iso_year_def)
qed

lemma iso_field_pad: "n < 100 \<Longrightarrow> iso_field c (c # pad_digits 2 n @ r) = Some (n, r)"
  using fixed_digits_pad [of n 2 r] by (simp add: iso_field_def)

lemma iso_parse_date_string:
  assumes "y < 10000" "m < 100" "d < 100"
  shows "iso_parse p (iso_date_string y m d) =
    (if m < 1 \<or> 12 < m \<or> d < 1 \<or> int d > days_in_month (int y) (int m - 1) then None
     else Some (make_date (make_day (int y) (int m - 1) (int d)) 0))"
proof -
  have md: "iso_month_day (CHR ''-'' # pad_digits 2 m @ CHR ''-'' # pad_digits 2 d) = (m, d, [])"
    using iso_field_pad [of m "CHR ''-''" "CHR ''-'' # pad_digits 2 d"] iso_field_pad [of d "CHR ''-''" "[]"] assms
    by (simp add: iso_month_day_def)
  show ?thesis using assms(1) md by (simp add: iso_parse_def iso_date_string_def iso_year_pad Let_def)
qed

text \<open>
  \<open>setMonth\<close> yields a valid date only from a valid date and a finite month, and
  every date it yields lies within the 8.64e15 ms either side of the epoch that
  \<open>TimeClip\<close> admits.
\<close>

theorem setMonth_clipped:
  assumes "date_set_month p tv month = Some t"
  shows "tv \<noteq> None \<and> (\<exists>q. to_number month = Fin q) \<and> \<bar>t\<bar> \<le> max_time"
  using assms
  by (auto simp: date_set_month_def time_clip_int_def Let_def split: option.splits jsnum.splits if_splits)

lemma iso_date_construct:
  assumes "y < 10000" "1 \<le> m" "m \<le> 12" "1 \<le> d" "int d \<le> days_in_month (int y) (int m - 1)"
  shows "date_construct p (JString (iso_date_string y m d)) = Some (make_date (make_day (int y) (int m - 1) (int d)) 0)"
proof -
  define D where "D = make_day (int y) (int m - 1) (int d)"
  have m0: "0 \<le> int m - 1" "int m - 1 \<le> 11" using assms(2,3) by simp_all
  have "days_in_month (int y) (int m - 1) \<le> 31" by (rule days_in_month_max [OF m0])
  with assms(5) have d100: "d < 100" by simp
  have dec: "year_from_day D = int y"
    unfolding D_def using m0 assms(4,5) make_day_decode by simp
  have "day_from_year 0 \<le> D"
    using year_from_day_bounds(1) [of D] dec day_from_year_mono [of 0 "int y"] by simp
  moreover have "D < day_from_year 10000"
    using year_from_day_bounds(2) [of D] dec day_from_year_mono [of "int y + 1" 10000] assms(1) by simp
  ultimately have "-719528 \<le> D" "D < 2932897" by (simp_all add: day_from_year_def)
  then have rng: "\<bar>make_date D 0\<bar> \<le> max_time"
    by (simp add: make_date_def ms_per_day_def max_time_def abs_le_iff)
  have "iso_parse p (iso_date_string y m d) = Some (make_date D 0)"
    using iso_parse_date_string [OF assms(1) _ d100, of m p] assms(2,3,4,5) by (simp add: D_def)
  with rng show ?thesis
    by (simp add: D_def date_construct_def date_parse_def time_clip_int_in_range)
qed

text \<open>
  Every calendar date of the years 0000-9999 written as \<open>YYYY-MM-DD\<close> (what a
  date input gives \<open>dataCompra\<close>) is a valid date for \<open>new Date\<close>, on every platform:
  it is read as UTC midnight, and decoding the time value gives back the year, the month
  (counted from 0) and the day.
\<close>

theorem iso_date_roundtrip:
  assumes "y < 10000" "1 \<le> m" "m \<le> 12" "1 \<le> d" "int d \<le> days_in_month (int y) (int m - 1)"
  shows "\<exists>t. date_construct p (JString (iso_date_string y m d)) = Some t
    \<and> year_from_time t = int y \<and> month_from_time t = int m - 1 \<and> date_from_time t = int d
    \<and> time_within_day t = 0"
proof -
  define D where "D = make_day (int y) (int m - 1) (int d)"
  have dec: "year_from_day D = int y \<and> month_from_day D = int m - 1 \<and> date_from_day D = int d"
    unfolding D_def using assms(2-5) by (intro make_day_decode) simp_all
  have td: "time_within_day (make_date D 0) = 0 \<and> day (make_date D 0) = D"
    by (rule time_within_day_make_date) (simp_all add: ms_per_day_def)
  show ?thesis
    using iso_date_construct [OF assms, of p] td dec
    by (simp add: D_def year_from_time_def month_from_time_def date_from_time_def)
qed

text \<open>
  A day beyond the length of its month (\<open>2023-02-29\<close>, \<open>2024-04-31\<close>) is not a
  date of the ISO format: \<open>new Date\<close> hands such a string to the implementation's
  fallback parser, so whether \<open>dateValidator\<close> rejects it is up to the platform.
\<close>

theorem iso_date_day_overflow:
  assumes "y < 10000" "1 \<le> m" "m \<le> 12" "d < 100" "days_in_month (int y) (int m - 1) < int d"
  shows "iso_parse p (iso_date_string y m d) = None
    \<and> date_construct p (JString (iso_date_string y m d)) = date_fallback p (iso_date_string y m d)"
proof -
  have m: "m < 100" using assms(3) by simp
  have "iso_parse p (iso_date_string y m d) = None"
    using iso_parse_date_string [OF assms(1) m assms(4), of p] assms(5) by simp
  then show ?thesis by (simp add: date_construct_def date_parse_def)
qed

end

