(* ===== verification/Forms.thy ===== *)
theory Forms
  imports JsValue
begin

text \<open>
  The part of Angular's reactive forms (\<open>@angular/forms\<close>) the component relies on:
  a \<open>FormControl\<close> holds a value, a disabled flag and its validators; a \<open>FormGroup\<close> holds
  named controls in insertion order. \<open>FormBuilder.group\<close> builds one from
  \<open>[value, validators]\<close> or \<open>[{value, disabled}]\<close> entries; \<open>patchValue\<close> writes the
  properties of an object into the controls of the same name and ignores every other
  property; \<open>value\<close> collects the values of the enabled controls; the status is
  \<open>DISABLED\<close>, \<open>INVALID\<close> or \<open>VALID\<close>. Validators are functions from a value to
  \<open>ValidationErrors | null\<close>, errors an object from error keys to details, merged as
  \<open>Validators.compose\<close> merges them. Validation runs on every value change in Angular;
  here the errors are computed from the current value, which gives the same result.
\<close>

type_synonym validation_errors = "(string \<times> jsval) list"
type_synonym validator = "jsval \<Rightarrow> validation_errors option"

record form_control =
  ctl_value :: jsval
  ctl_disabled :: bool
  ctl_validators :: "validator list"

type_synonym form_group = "(string \<times> form_control) list"

datatype form_status = Valid | Invalid | Disabled

definition fb_control :: "jsval \<Rightarrow> bool \<Rightarrow> validator list \<Rightarrow> form_control" where
  "fb_control v dis vs = \<lparr>ctl_value = v, ctl_disabled = dis, ctl_validators = vs\<rparr>"

definition is_empty_input :: "jsval \<Rightarrow> bool" where
  \<comment> \<open>\<open>value == null || (typeof value === 'string' && value.length === 0)\<close>\<close>
  "is_empty_input v = (case v of JUndefined \<Rightarrow> True | JNull \<Rightarrow> True | JString s \<Rightarrow> s = [] | _ \<Rightarrow> False)"

definition required :: validator where
  \<comment> \<open>\<open>Validators.required\<close>\<close>
  "required v = (if is_empty_input v then Some [(''required'', JBool True)] else None)"

definition merge_errors :: "validation_errors option list \<Rightarrow> validation_errors option" where
  \<comment> \<open>\<open>res = {...res, ...errors}\<close> for every non-null result; \<open>null\<close> when nothing is left\<close>
  "merge_errors es =
     (let res = foldl (\<lambda>r e. case e of None \<Rightarrow> r | Some ps \<Rightarrow> foldl (\<lambda>r (k, x). AList.update k x r) r ps) [] es
      in if res = [] then None else Some res)"

definition compose_validators :: "validator list \<Rightarrow> validator" where
  "compose_validators vs v = merge_errors (map (\<lambda>f. f v) vs)"

definition control_errors :: "form_control \<Rightarrow> validation_errors option" where
  "control_errors c = (if ctl_disabled c then None else compose_validators (ctl_validators c) (ctl_value c))"

definition group_disabled :: "form_group \<Rightarrow> bool" where
  "group_disabled g \<longleftrightarrow> g \<noteq> [] \<and> list_all (\<lambda>(k, c). ctl_disabled c) g"

definition group_status :: "form_group \<Rightarrow> form_status" where
  "group_status g =
     (if group_disabled g then Disabled
      else if list_ex (\<lambda>(k, c). control_errors c \<noteq> None) g then Invalid else Valid)"

definition form_value :: "form_group \<Rightarrow> jsval" where
  \<comment> \<open>\<open>FormGroup.value\<close>: the enabled controls, or all of them when all are disabled\<close>
  "form_value g =
     JObject (map (\<lambda>(k, c). (k, ctl_value c)) (filter (\<lambda>(k, c). \<not> ctl_disabled c \<or> group_disabled g) g))"

definition set_control_value :: "form_group \<Rightarrow> string \<Rightarrow> jsval \<Rightarrow> form_group" where
  \<comment> \<open>\<open>this.controls[k].setValue(x)\<close>\<close>
  "set_control_value g k x = map (\<lambda>(k', c). if k' = k then (k', c\<lparr>ctl_value := x\<rparr>) else (k', c)) g"

definition patch_value :: "form_group \<Rightarrow> jsval \<Rightarrow> form_group" where
  \<comment> \<open>\<open>FormGroup.patchValue(value)\<close>: properties without a control are ignored\<close>
  "patch_value g v =
     (case v of
        JObject ps \<Rightarrow> foldl (\<lambda>g (k, x). if k \<in> set (map fst g) then set_control_value g k x else g) g ps
      | _ \<Rightarrow> g)"

definition controls_enabled :: "form_group \<Rightarrow> bool" where
  "controls_enabled g \<longleftrightarrow> list_all (\<lambda>(k, c). \<not> ctl_disabled c) g"

definition group_values :: "form_group \<Rightarrow> string \<rightharpoonup> jsval" where
  \<comment> \<open>abstraction: the values of a group's controls as a partial map from their names\<close>
  "group_values g = (\<lambda>k. map_option ctl_value (map_of g k))"

lemmas forms_defs [model_eval] = fb_control_def is_empty_input_def required_def merge_errors_def
  compose_validators_def control_errors_def group_disabled_def group_status_def form_value_def
  set_control_value_def patch_value_def controls_enabled_def

subsection \<open>Lemmas\<close>

lemma set_control_value_keys [simp]: "map fst (set_control_value g k x) = map fst g"
  by (induction g) (auto simp: set_control_value_def)

lemma set_control_value_absent: "k \<notin> set (map fst g) \<Longrightarrow> set_control_value g k x = g"
  by (induction g) (auto simp: set_control_value_def)

lemma patch_fold_keys:
  "map fst (foldl (\<lambda>g (k, x). if k \<in> fst ` set g then set_control_value g k x else g) g ps)
     = map fst g"
  by (induction ps arbitrary: g) auto

lemma patch_value_keys: "map fst (patch_value g v) = map fst g"
  by (simp add: patch_value_def patch_fold_keys split: jsval.split)

lemma patch_value_ignores:
  "(\<forall>k \<in> set (map fst ps). k \<notin> set (map fst g)) \<Longrightarrow> patch_value g (JObject ps) = g"
proof -
  assume "\<forall>k \<in> set (map fst ps). k \<notin> set (map fst g)"
  then show ?thesis unfolding patch_value_def by (induction ps) auto
qed

lemma patch_value_nonobject: "(\<forall>ps. v \<noteq> JObject ps) \<Longrightarrow> patch_value g v = g"
  by (cases v) (auto simp: patch_value_def)

lemma map_of_set_control_value:
  "map_of (set_control_value g k x) k' =
     (if k' = k then map_option (\<lambda>c. c\<lparr>ctl_value := x\<rparr>) (map_of g k') else map_of g k')"
  by (induction g) (auto simp: set_control_value_def)

lemma patched_value_override:
  "(case ox of None \<Rightarrow> c | Some y \<Rightarrow> c\<lparr>ctl_value := y\<rparr>)\<lparr>ctl_value := x\<rparr> = c\<lparr>ctl_value := x\<rparr>"
  by (cases ox) simp_all

lemma patch_value_map_of:
  "map_of (patch_value g (JObject ps)) k =
     map_option (\<lambda>c. case map_of (rev ps) k of None \<Rightarrow> c | Some x \<Rightarrow> c\<lparr>ctl_value := x\<rparr>) (map_of g k)"
proof -
  let ?F = "\<lambda>g (k, x). if k \<in> fst ` set g then set_control_value g k x else g"
  have "map_of (foldl ?F g ps) k =
     map_option (\<lambda>c. case map_of (rev ps) k of None \<Rightarrow> c | Some x \<Rightarrow> c\<lparr>ctl_value := x\<rparr>) (map_of g k)"
  proof (induction ps rule: rev_induct)
    case Nil
    show ?case by (simp add: option.map_ident)
  next
    case (snoc p ps)
    obtain k' x where p: "p = (k', x)" by (cases p)
    have keys: "set (map fst (foldl ?F g ps)) = set (map fst g)" by (simp only: patch_fold_keys)
    show ?case
    proof (cases "k' = k")
      case True
      show ?thesis
      proof (cases "k \<in> set (map fst g)")
        case True
        with \<open>k' = k\<close> keys snoc show ?thesis
          by (simp add: p map_of_set_control_value option.map_comp comp_def patched_value_override)
      next
        case False
        then have "map_of g k = None" by (simp add: map_of_eq_None_iff)
        with False \<open>k' = k\<close> keys snoc show ?thesis by (simp add: p)
      qed
    next
      case False
      with keys snoc show ?thesis by (simp add: p map_of_set_control_value)
    qed
  qed
  then show ?thesis by (simp add: patch_value_def)
qed

lemma set_control_value_enabled [simp]:
  "controls_enabled (set_control_value g k x) = controls_enabled g"
proof (induction g)
  case (Cons a g)
  then show ?case by (cases a) (simp add: controls_enabled_def set_control_value_def)
qed (simp add: set_control_value_def)

lemma patch_value_enabled [simp]: "controls_enabled (patch_value g v) = controls_enabled g"
proof -
  have "controls_enabled (foldl (\<lambda>g (k, x). if k \<in> fst ` set g then set_control_value g k x else g) g ps)
    = controls_enabled g" for ps
  proof (induction ps arbitrary: g)
    case (Cons p ps)
    then show ?case by (cases p) simp
  qed simp
  then show ?thesis by (simp add: patch_value_def split: jsval.split)
qed

lemma map_of_control_values:
  "map_of (map (\<lambda>(k, c). (k, ctl_value c)) g) k = map_option ctl_value (map_of g k)"
  by (induction g) auto

lemma form_value_enabled:
  "controls_enabled g \<Longrightarrow> form_value g = JObject (map (\<lambda>(k, c). (k, ctl_value c)) g)"
proof -
  assume "controls_enabled g"
  then have "filter (\<lambda>(k, c). \<not> ctl_disabled c \<or> group_disabled g) g = g"
    by (intro filter_True) (auto simp: controls_enabled_def list_all_iff)
  then show ?thesis by (simp add: form_value_def)
qed

lemma get_prop_form_value:
  assumes "controls_enabled g"
  shows "get_prop (form_value g) k = (case map_of g k of None \<Rightarrow> JUndefined | Some c \<Rightarrow> ctl_value c)"
  using assms by (simp add: form_value_enabled get_prop_def map_of_control_values split: option.split)

subsection \<open>Refinement of the abstract \<open>patchValue\<close>\<close>

text \<open>
  Seen through \<open>group_values\<close>, \<open>patchValue\<close> is the override of the group's values
  by the object's properties, restricted to the names that have a control: a property
  without a control is ignored, a control without a property keeps its value, and of two
  properties of the same name the later one wins.
\<close>

theorem patch_value_refines:
  "group_values (patch_value g (JObject ps)) = group_values g ++ (map_of (rev ps) |` dom (group_values g))"
proof (rule ext)
  fix k
  show "group_values (patch_value g (JObject ps)) k
    = (group_values g ++ (map_of (rev ps) |` dom (group_values g))) k"
    by (cases "map_of g k"; cases "map_of (rev ps) k")
      (simp_all add: group_values_def patch_value_map_of map_add_def restrict_map_def dom_def)
qed

end
