(* ===== verification/Validators.thy ===== *)
theory Validators
  imports JsDate Forms
begin

text \<open>
  The three validator methods of \<open>CadastroComponent\<close>
  (\<open>src/src/app/produto/cadastro/cadastro.component.ts\<close>, lines 94-114), each a pure function
  from the control's value to \<open>ValidationErrors | null\<close>. The messages are the source's
  Portuguese texts in UTF-8 bytes. \<open>dateValidator\<close> depends on the platform through
  \<open>new Date(value)\<close>: a string outside the ISO format is judged by the implementation's
  \<open>Date.parse\<close> fallback.
\<close>

definition msg_invalid_number :: string where
  "msg_invalid_number = ''Por favor, insira um n'' @ [CHR 0xC3, CHR 0xBA] @ ''mero v''
     @ [CHR 0xC3, CHR 0xA1] @ ''lido.''"

definition msg_invalid_string :: string where
  "msg_invalid_string = ''Por favor, insira um texto v'' @ [CHR 0xC3, CHR 0xA1] @ ''lido.''"

definition msg_invalid_date :: string where
  "msg_invalid_date = ''Por favor, insira uma data v'' @ [CHR 0xC3, CHR 0xA1] @ ''lida.''"

definition numberValidator :: validator where
  "numberValidator v =
     (if is_nan (to_number v) then Some [(''invalidNumber'', JString msg_invalid_number)] else None)"

definition stringValidator :: validator where
  "stringValidator v =
     (if js_typeof v \<noteq> ''string'' then Some [(''invalidString'', JString msg_invalid_string)] else None)"

definition dateValidator :: "platform \<Rightarrow> validator" where
  "dateValidator p v =
     (if is_nan (date_get_time (date_construct p v))
      then Some [(''invalidDate'', JString msg_invalid_date)] else None)"

lemmas validator_defs [model_eval] = msg_invalid_number_def msg_invalid_string_def
  msg_invalid_date_def numberValidator_def stringValidator_def dateValidator_def

subsection \<open>What the validators accept\<close>

lemma merge_errors_None: "list_all (\<lambda>e. e = None) es \<Longrightarrow> merge_errors es = None"
proof -
  assume "list_all (\<lambda>e. e = None) es"
  then have "foldl (\<lambda>r e. case e of None \<Rightarrow> r | Some ps \<Rightarrow> foldl (\<lambda>r (k, x). AList.update k x r) r ps) r es = r"
    for r by (induction es arbitrary: r) simp_all
  then show ?thesis by (simp add: merge_errors_def)
qed

lemma digits_pass:
  "ds \<noteq> [] \<Longrightarrow> list_all is_digit ds \<Longrightarrow> required (JString ds) = None \<and> numberValidator (JString ds) = None"
  by (simp add: required_def is_empty_input_def numberValidator_def is_nan_def string_to_number_digits)

lemma text_passes: "s \<noteq> [] \<Longrightarrow> required (JString s) = None \<and> stringValidator (JString s) = None"
  by (simp add: required_def is_empty_input_def stringValidator_def)

lemma date_passes: "date_construct p v = Some t \<Longrightarrow> dateValidator p v = None"
  by (simp add: dateValidator_def date_get_time_def is_nan_def)

text \<open>
  C11. Blank input passes validation: a non-empty string of spaces and tabs in the
  \<open>id\<close> or \<open>duracaoGarantiaMeses\<close> control passes \<open>Validators.required\<close> (which only
  rejects the empty string) and \<open>numberValidator\<close> (\<open>Number\<close> of white space is 0), and
  in the \<open>nome\<close> control it passes \<open>required\<close> and \<open>stringValidator\<close>.
\<close>

theorem blank_fields_pass_validation:
  assumes "w \<noteq> []" "set w \<subseteq> {CHR '' '', CHR 0x09}"
  shows "to_number (JString w) = Fin 0
    \<and> control_errors (fb_control (JString w) False [required, numberValidator]) = None
    \<and> control_errors (fb_control (JString w) False [required, stringValidator]) = None"
proof -
  have "\<forall>c \<in> set w. js_ws c" using assms(2) by (auto simp: js_ws_def)
  then have dw: "dropWhile js_ws w = []" by (rule dropWhile_eq_Nil_conv [THEN iffD2])
  have "js_trim w = []" unfolding js_trim_def dw by simp
  then have n: "to_number (JString w) = Fin 0" by (simp add: string_to_number_def)
  have r: "required (JString w) = None" using assms(1) by (simp add: required_def is_empty_input_def)
  show ?thesis
    using n r text_passes [OF assms(1)]
    by (simp add: control_errors_def compose_validators_def fb_control_def merge_errors_None
        numberValidator_def is_nan_def)
qed


end

