(* ===== verification/Cadastro.thy ===== *)
theory Cadastro
  imports Validators
begin

text \<open>
  \<open>CadastroComponent\<close> (\<open>src/src/app/produto/cadastro/cadastro.component.ts\<close>) as an
  event-driven state machine. The state holds the component's fields (\<open>produtoForm\<close>,
  \<open>produtoId\<close>, \<open>isEditing\<close>) and the asynchronous machinery they are driven by: whether
  \<open>ngOnInit\<close> has run, whether the subscription to \<open>route.params\<close> is alive, the one inner
  subscription \<open>switchMap\<close> keeps (numbered, so that a response of a superseded request is
  recognised), the outstanding \<open>updateProduto\<close>/\<open>addProduto\<close> subscriptions, and the log of
  effects on the collaborators (service calls, snack bars, dialogs, console). An event is
  one thing the environment does: Angular calls \<open>ngOnInit\<close>, the router emits parameters,
  the service answers, the user edits a field, changes a date (the template calls
  \<open>calcularDataFimGarantia\<close>) or submits. \<open>cadastro_step\<close> is the component's reaction.
\<close>

datatype service_op = UpdateOp | AddOp

datatype effect =
    GetProdutoById jsnum
  | UpdateProduto jsval
  | AddProduto jsval
  | SnackBarOpen string string nat
  | DialogCloseAll
  | ConsoleError jsval
  | UnhandledError jsval

record cadastro =
  produtoForm :: form_group
  produtoId :: jsnum
  isEditing :: bool
  initialized :: bool
  params_active :: bool
  fetch_seq :: nat
  fetch_pending :: "nat option"
  call_seq :: nat
  pending_calls :: "(nat \<times> service_op) list"
  effects :: "effect list"

datatype event =
    NgOnInit
  | ParamsEmit "(string \<times> string) list"
  | FetchNext nat jsval
  | FetchError nat jsval
  | Input string jsval
  | CalcEndDate
  | Submit
  | CallSuccess nat
  | CallError nat jsval

subsection \<open>Construction and initialisation\<close>

definition initial_form :: form_group where
  \<comment> \<open>the field initializer of \<open>produtoForm\<close>\<close>
  "initial_form =
     [(''nome'', fb_control (JString []) False [required]),
      (''dataCompra'', fb_control (JString []) False [required]),
      (''duracaoGarantiaMeses'', fb_control (JString []) False [required]),
      (''dataFimGarantia'', fb_control (JString []) True [])]"

definition cadastro_new :: cadastro where
  "cadastro_new =
     \<lparr>produtoForm = initial_form, produtoId = Fin 0, isEditing = False, initialized = False,
      params_active = False, fetch_seq = 0, fetch_pending = None, call_seq = 0,
      pending_calls = [], effects = []\<rparr>"

definition createForm :: "platform \<Rightarrow> cadastro \<Rightarrow> cadastro" where
  "createForm p s = s\<lparr>produtoForm :=
     [(''id'', fb_control (JString []) False [required, numberValidator]),
      (''nome'', fb_control (JString []) False [required, stringValidator]),
      (''dataCompra'', fb_control (JString []) False [required, dateValidator p]),
      (''duracaoGarantiaMeses'', fb_control (JString []) False [required, numberValidator])]\<rparr>"

definition checkEditMode :: "cadastro \<Rightarrow> cadastro" where
  \<comment> \<open>subscribes to \<open>route.params\<close>; the emissions are \<open>on_params\<close>\<close>
  "checkEditMode s = s\<lparr>params_active := True\<rparr>"

definition ngOnInit :: "platform \<Rightarrow> cadastro \<Rightarrow> cadastro" where
  "ngOnInit p s = (checkEditMode (createForm p s))\<lparr>initialized := True\<rparr>"

subsection \<open>Edit mode: route parameters and the product fetch\<close>

definition on_params :: "cadastro \<Rightarrow> (string \<times> string) list \<Rightarrow> cadastro" where
  \<comment> \<open>the \<open>switchMap\<close> projection: with a truthy \<open>params['id']\<close> enter edit mode and
      subscribe to \<open>getProdutoById(+id)\<close>; otherwise switch to the empty array, which only
      drops the previous request. \<open>isEditing\<close> is never reset.\<close>
  "on_params s params =
     (if \<not> params_active s then s
      else
        (let idv = (case map_of params ''id'' of None \<Rightarrow> JUndefined | Some x \<Rightarrow> JString x) in
         if truthy idv then
           (let pid = to_number idv in
            s\<lparr>isEditing := True, produtoId := pid, fetch_seq := Suc (fetch_seq s),
              fetch_pending := Some (fetch_seq s), effects := effects s @ [GetProdutoById pid]\<rparr>)
         else s\<lparr>fetch_pending := None\<rparr>))"

definition on_fetch_next :: "cadastro \<Rightarrow> nat \<Rightarrow> jsval \<Rightarrow> cadastro" where
  \<comment> \<open>the subscriber: patch the form when editing and a product arrived; the HTTP
      observable completes after its one value\<close>
  "on_fetch_next s n produto =
     (if params_active s \<and> fetch_pending s = Some n then
        (let s' = s\<lparr>fetch_pending := None\<rparr> in
         if isEditing s \<and> truthy produto then s'\<lparr>produtoForm := patch_value (produtoForm s) produto\<rparr>
         else s')
      else s)"

definition on_fetch_error :: "cadastro \<Rightarrow> nat \<Rightarrow> jsval \<Rightarrow> cadastro" where
  \<comment> \<open>\<open>subscribe\<close> has no error callback: the error is reported as unhandled and the
      subscription to \<open>route.params\<close> ends with it\<close>
  "on_fetch_error s n e =
     (if params_active s \<and> fetch_pending s = Some n then
        s\<lparr>params_active := False, fetch_pending := None, effects := effects s @ [UnhandledError e]\<rparr>
      else s)"

subsection \<open>The derived end date\<close>

definition compute_end_date :: "platform \<Rightarrow> jsval \<Rightarrow> jsval \<Rightarrow> time_value" where
  \<comment> \<open>\<open>const d = new Date(dataCompra); d.setMonth(d.getMonth() + duracaoMeses)\<close>\<close>
  "compute_end_date p dataCompra duracaoMeses =
     (let d = date_construct p dataCompra
      in date_set_month p d (js_plus p (JNumber (date_get_month p d)) duracaoMeses))"

definition calcularDataFimGarantia :: "platform \<Rightarrow> cadastro \<Rightarrow> cadastro" where
  "calcularDataFimGarantia p s =
     (let v = form_value (produtoForm s);
          dataCompra = get_prop v ''dataCompra'';
          duracaoMeses = get_prop v ''duracaoGarantiaMeses''
      in if truthy dataCompra \<and> truthy duracaoMeses then
           s\<lparr>produtoForm := patch_value (produtoForm s)
              (JObject [(''dataFimGarantia'', JDate (compute_end_date p dataCompra duracaoMeses))])\<rparr>
         else s)"

subsection \<open>Submission\<close>

definition msg_update_ok :: string where "msg_update_ok = ''Produto atualizado com sucesso''"
definition msg_update_err :: string where "msg_update_err = ''Erro ao atualizar o produto''"
definition msg_add_ok :: string where "msg_add_ok = ''Produto cadastrado com sucesso''"
definition msg_add_err :: string where "msg_add_err = ''Erro ao cadastrar o produto''"

definition onSubmit :: "cadastro \<Rightarrow> cadastro" where
  \<comment> \<open>no validity check: the form's value is sent whatever its status\<close>
  "onSubmit s =
     (let produto = form_value (produtoForm s); n = call_seq s in
      if isEditing s then
        s\<lparr>call_seq := Suc n, pending_calls := pending_calls s @ [(n, UpdateOp)],
          effects := effects s @ [UpdateProduto (set_prop produto ''id'' (JNumber (produtoId s)))]\<rparr>
      else
        s\<lparr>call_seq := Suc n, pending_calls := pending_calls s @ [(n, AddOp)],
          effects := effects s @ [AddProduto produto]\<rparr>)"

definition on_call_success :: "cadastro \<Rightarrow> nat \<Rightarrow> cadastro" where
  "on_call_success s n =
     (case map_of (pending_calls s) n of
        None \<Rightarrow> s
      | Some op \<Rightarrow>
          s\<lparr>pending_calls := AList.delete n (pending_calls s),
            effects := effects s @ [SnackBarOpen (if op = UpdateOp then msg_update_ok else msg_add_ok)
                                      ''Fechar'' 2000, DialogCloseAll]\<rparr>)"

definition on_call_error :: "cadastro \<Rightarrow> nat \<Rightarrow> jsval \<Rightarrow> cadastro" where
  "on_call_error s n e =
     (case map_of (pending_calls s) n of
        None \<Rightarrow> s
      | Some op \<Rightarrow>
          s\<lparr>pending_calls := AList.delete n (pending_calls s),
            effects := effects s @ [ConsoleError e,
              SnackBarOpen (if op = UpdateOp then msg_update_err else msg_add_err) ''Fechar'' 2000]\<rparr>)"

subsection \<open>The component as a state machine\<close>

definition on_input :: "cadastro \<Rightarrow> string \<Rightarrow> jsval \<Rightarrow> cadastro" where
  \<comment> \<open>the user edits the control bound to \<open>k\<close> (\<open>setValue\<close> from the value accessor)\<close>
  "on_input s k x = s\<lparr>produtoForm := set_control_value (produtoForm s) k x\<rparr>"

fun cadastro_step :: "platform \<Rightarrow> cadastro \<Rightarrow> event \<Rightarrow> cadastro" where
  "cadastro_step p s NgOnInit = (if initialized s then s else ngOnInit p s)"
| "cadastro_step p s (ParamsEmit ps) = on_params s ps"
| "cadastro_step p s (FetchNext n v) = on_fetch_next s n v"
| "cadastro_step p s (FetchError n e) = on_fetch_error s n e"
| "cadastro_step p s (Input k x) = (if initialized s then on_input s k x else s)"
| "cadastro_step p s CalcEndDate = (if initialized s then calcularDataFimGarantia p s else s)"
| "cadastro_step p s Submit = (if initialized s then onSubmit s else s)"
| "cadastro_step p s (CallSuccess n) = on_call_success s n"
| "cadastro_step p s (CallError n e) = on_call_error s n e"

definition cadastro_run :: "platform \<Rightarrow> cadastro \<Rightarrow> event list \<Rightarrow> cadastro" where
  "cadastro_run p s es = foldl (cadastro_step p) s es"

inductive reachable :: "platform \<Rightarrow> cadastro \<Rightarrow> bool" for p where
  start: "reachable p cadastro_new"
| step: "reachable p s \<Longrightarrow> reachable p (cadastro_step p s e)"

definition form_keys :: "string list" where
  "form_keys = [''id'', ''nome'', ''dataCompra'', ''duracaoGarantiaMeses'']"

definition cadastro_inv :: "cadastro \<Rightarrow> bool" where
  \<comment> \<open>before \<open>ngOnInit\<close> nothing has happened; after it the form has the four controls
      \<open>createForm\<close> built\<close>
  "cadastro_inv s \<longleftrightarrow> (if initialized s then map fst (produtoForm s) = form_keys else s = cadastro_new)"

fun is_call :: "effect \<Rightarrow> bool" where
  "is_call (UpdateProduto v) = True"
| "is_call (AddProduto v) = True"
| "is_call _ = False"

fun is_notice :: "effect \<Rightarrow> bool" where
  "is_notice (SnackBarOpen m a d) = True"
| "is_notice _ = False"

definition calls_inv :: "cadastro \<Rightarrow> bool" where
  \<comment> \<open>every call made is outstanding or has had exactly one snack bar\<close>
  "calls_inv s \<longleftrightarrow> distinct (map fst (pending_calls s)) \<and> (\<forall>n \<in> fst ` set (pending_calls s). n < call_seq s)
     \<and> call_seq s = length (filter is_call (effects s))
     \<and> length (filter is_call (effects s)) = length (filter is_notice (effects s)) + length (pending_calls s)"

fun is_fetch :: "effect \<Rightarrow> bool" where
  "is_fetch (GetProdutoById n) = True"
| "is_fetch _ = False"

definition fetch_inv :: "cadastro \<Rightarrow> bool" where
  \<comment> \<open>requests are numbered as made; the one awaited is the latest, in edit mode\<close>
  "fetch_inv s \<longleftrightarrow> length (filter is_fetch (effects s)) = fetch_seq s
     \<and> (case fetch_pending s of None \<Rightarrow> True
        | Some n \<Rightarrow> Suc n = fetch_seq s \<and> isEditing s \<and> params_active s)"

lemmas cadastro_defs [model_eval] = initial_form_def cadastro_new_def createForm_def
  checkEditMode_def ngOnInit_def on_params_def compute_end_date_def on_fetch_next_def on_fetch_error_def
  calcularDataFimGarantia_def msg_update_ok_def msg_update_err_def msg_add_ok_def msg_add_err_def
  onSubmit_def on_call_success_def on_call_error_def on_input_def cadastro_run_def

subsection \<open>Frame lemmas of the handlers\<close>

lemma step_before_init:
  "cadastro_step p cadastro_new e = (if e = NgOnInit then ngOnInit p cadastro_new else cadastro_new)"
  by (cases e) (simp_all add: cadastro_new_def on_params_def on_fetch_next_def on_fetch_error_def
      on_call_success_def on_call_error_def)

lemma step_keeps_keys:
  assumes "initialized s"
  shows "initialized (cadastro_step p s e) \<and>
    map fst (produtoForm (cadastro_step p s e)) = map fst (produtoForm s)"
  using assms
  by (cases e) (simp_all add: on_params_def on_fetch_next_def on_fetch_error_def on_input_def
      calcularDataFimGarantia_def onSubmit_def on_call_success_def on_call_error_def
      patch_value_keys Let_def split: option.split)

lemma cadastro_inv_step: "cadastro_inv s \<Longrightarrow> cadastro_inv (cadastro_step p s e)"
proof (cases "initialized s")
  case True
  assume "cadastro_inv s"
  with True step_keeps_keys [OF True, of p e] show ?thesis by (simp add: cadastro_inv_def)
next
  case False
  assume "cadastro_inv s"
  with False have s: "s = cadastro_new" by (simp add: cadastro_inv_def)
  have i: "cadastro_inv (ngOnInit p cadastro_new)" "cadastro_inv cadastro_new"
    by (simp_all add: cadastro_inv_def ngOnInit_def createForm_def checkEditMode_def form_keys_def
        cadastro_new_def)
  show ?thesis unfolding s step_before_init using i by simp
qed

lemma reachable_inv: "reachable p s \<Longrightarrow> cadastro_inv s"
proof (induction rule: reachable.induct)
  case start
  show ?case by (simp add: cadastro_inv_def cadastro_new_def)
next
  case (step s e)
  from step.IH show ?case by (rule cadastro_inv_step)
qed

lemma reachable_run: "reachable p s \<Longrightarrow> reachable p (cadastro_run p s es)"
  unfolding cadastro_run_def
  by (induction es arbitrary: s) (auto intro: reachable.step)

lemma cadastro_run_snoc: "cadastro_run p s (es @ [e]) = cadastro_step p (cadastro_run p s es) e"
  by (simp add: cadastro_run_def)

lemma effects_step_prefix: "\<exists>xs. effects (cadastro_step p s e) = effects s @ xs"
  by (cases e) (auto simp: ngOnInit_def createForm_def checkEditMode_def on_params_def
      on_fetch_next_def on_fetch_error_def on_input_def calcularDataFimGarantia_def onSubmit_def
      on_call_success_def on_call_error_def Let_def split: option.split)

lemma isEditing_step: "isEditing s \<Longrightarrow> isEditing (cadastro_step p s e)"
  by (cases e) (simp_all add: ngOnInit_def createForm_def checkEditMode_def on_params_def
      on_fetch_next_def on_fetch_error_def on_input_def calcularDataFimGarantia_def onSubmit_def
      on_call_success_def on_call_error_def Let_def split: option.split)

lemma isEditing_run: "isEditing s \<Longrightarrow> isEditing (cadastro_run p s es)"
  unfolding cadastro_run_def by (induction es arbitrary: s) (simp_all add: isEditing_step)

subsection \<open>Accounting of service calls\<close>

lemma length_delete_present:
  "distinct (map fst al) \<Longrightarrow> map_of al n = Some v \<Longrightarrow> Suc (length (AList.delete n al)) = length al"
proof (induction al)
  case Nil
  then show ?case by simp
next
  case (Cons a al)
  show ?case
  proof (cases "fst a = n")
    case True
    with Cons.prems have "n \<notin> fst ` set al" by auto
    then have "AList.delete n al = al" by simp
    with True show ?thesis by simp
  next
    case False
    with Cons show ?thesis by (cases a) simp
  qed
qed

lemma delete_facts:
  assumes "calls_inv s"
  shows "distinct (map fst (AList.delete n (pending_calls s)))"
    "\<forall>x \<in> set (AList.delete n (pending_calls s)). fst x < call_seq s"
proof -
  show "distinct (map fst (AList.delete n (pending_calls s)))"
    using assms distinct_delete [of "pending_calls s" n] by (simp add: calls_inv_def)
  show "\<forall>x \<in> set (AList.delete n (pending_calls s)). fst x < call_seq s"
    using assms by (auto simp: calls_inv_def AList.delete_eq)
qed

lemma calls_inv_step: "calls_inv s \<Longrightarrow> calls_inv (cadastro_step p s e)"
proof (cases e)
  case Submit
  assume "calls_inv s"
  then show ?thesis using Submit
    by (auto simp: calls_inv_def onSubmit_def Let_def)
next
  case (CallSuccess n)
  assume i: "calls_inv s"
  show ?thesis
  proof (cases "map_of (pending_calls s) n")
    case (Some op)
    with i have "Suc (length (AList.delete n (pending_calls s))) = length (pending_calls s)"
      by (intro length_delete_present) (simp_all add: calls_inv_def)
    with i Some CallSuccess show ?thesis
      using delete_facts [of s n] by (auto simp: calls_inv_def on_call_success_def) (metis fst_conv)
  qed (simp add: CallSuccess i on_call_success_def)
next
  case (CallError n x)
  assume i: "calls_inv s"
  show ?thesis
  proof (cases "map_of (pending_calls s) n")
    case (Some op)
    with i have "Suc (length (AList.delete n (pending_calls s))) = length (pending_calls s)"
      by (intro length_delete_present) (simp_all add: calls_inv_def)
    with i Some CallError show ?thesis
      using delete_facts [of s n] by (auto simp: calls_inv_def on_call_error_def) (metis fst_conv)
  qed (simp add: CallError i on_call_error_def)
qed (auto simp: calls_inv_def ngOnInit_def createForm_def checkEditMode_def on_params_def
      on_fetch_next_def on_fetch_error_def on_input_def calcularDataFimGarantia_def Let_def)

lemma reachable_calls_inv: "reachable p s \<Longrightarrow> calls_inv s"
proof (induction rule: reachable.induct)
  case start
  show ?case by (simp add: calls_inv_def cadastro_new_def)
next
  case (step s e)
  from step.IH show ?case by (rule calls_inv_step)
qed

subsection \<open>The controls stay enabled\<close>

lemma step_keeps_enabled:
  assumes "initialized s" "controls_enabled (produtoForm s)"
  shows "controls_enabled (produtoForm (cadastro_step p s e))"
  using assms
  by (cases e) (simp_all add: on_params_def on_fetch_next_def on_fetch_error_def on_input_def
      calcularDataFimGarantia_def onSubmit_def on_call_success_def on_call_error_def Let_def
      split: option.split)

lemma reachable_enabled: "reachable p s \<Longrightarrow> initialized s \<Longrightarrow> controls_enabled (produtoForm s)"
proof (induction rule: reachable.induct)
  case start
  then show ?case by (simp add: cadastro_new_def)
next
  case (step s e)
  show ?case
  proof (cases "initialized s")
    case True
    with step.IH show ?thesis by (intro step_keeps_enabled) simp_all
  next
    case False
    with reachable_inv [OF step.hyps] have s: "s = cadastro_new" by (simp add: cadastro_inv_def)
    have "controls_enabled (produtoForm (ngOnInit p cadastro_new))"
      by (simp add: ngOnInit_def createForm_def checkEditMode_def controls_enabled_def fb_control_def)
    with step.prems show ?thesis unfolding s step_before_init
      by (simp split: if_splits add: cadastro_new_def)
  qed
qed

lemma reachable_form:
  assumes "reachable p s" "initialized s"
  shows "form_value (produtoForm s) = JObject (map (\<lambda>(k, c). (k, ctl_value c)) (produtoForm s))"
    "map fst (produtoForm s) = form_keys"
    "(map_of (produtoForm s) k = None) = (k \<notin> set form_keys)"
proof -
  show keys: "map fst (produtoForm s) = form_keys"
    using reachable_inv [OF assms(1)] assms(2) by (simp add: cadastro_inv_def)
  show "form_value (produtoForm s) = JObject (map (\<lambda>(k, c). (k, ctl_value c)) (produtoForm s))"
    using reachable_enabled [OF assms] by (rule form_value_enabled)
  show "(map_of (produtoForm s) k = None) = (k \<notin> set form_keys)"
    unfolding keys [symmetric] by (simp add: map_of_eq_None_iff)
qed

lemma fetch_inv_step: "fetch_inv s \<Longrightarrow> fetch_inv (cadastro_step p s e)"
  by (cases e) (auto simp: fetch_inv_def ngOnInit_def createForm_def checkEditMode_def on_params_def
      on_fetch_next_def on_fetch_error_def on_input_def calcularDataFimGarantia_def onSubmit_def
      on_call_success_def on_call_error_def Let_def split: option.splits)

lemma calc_on_new: "calcularDataFimGarantia p cadastro_new = cadastro_new"
  by (simp add: calcularDataFimGarantia_def cadastro_new_def initial_form_def form_value_def
      group_disabled_def fb_control_def get_prop_def Let_def)

lemma form_value_props: "\<exists>ps. form_value g = JObject ps"
  by (simp add: form_value_def)

subsection \<open>Properties of the component\<close>

text \<open>
  C1. \<open>calcularDataFimGarantia\<close> never changes the component: before \<open>ngOnInit\<close> the
  form's fields are empty, and afterwards the form \<open>createForm\<close> built has no
  \<open>dataFimGarantia\<close> control, so \<open>patchValue({dataFimGarantia})\<close> drops the computed date.
\<close>

theorem calcularDataFimGarantia_noop:
  assumes "reachable p s"
  shows "calcularDataFimGarantia p s = s"
proof (cases "initialized s")
  case True
  with reachable_inv [OF assms] have keys: "map fst (produtoForm s) = form_keys"
    by (simp add: cadastro_inv_def)
  have "''dataFimGarantia'' \<notin> set (map fst (produtoForm s))"
    unfolding keys by (simp add: form_keys_def)
  then have "patch_value (produtoForm s) (JObject [(''dataFimGarantia'', x)]) = produtoForm s" for x
    by (intro patch_value_ignores) simp
  then show ?thesis by (simp add: calcularDataFimGarantia_def Let_def)
next
  case False
  with reachable_inv [OF assms] have "s = cadastro_new" by (simp add: cadastro_inv_def)
  then show ?thesis by (simp add: calc_on_new)
qed

text \<open>
  C2. \<open>onSubmit\<close> sends the form's value once: to \<open>updateProduto\<close> in edit mode, with
  \<open>id\<close> replaced by the stored \<open>produtoId\<close> whatever the form's \<open>id\<close> field holds, and to
  \<open>addProduto\<close> in create mode, with the form's own \<open>id\<close>; every other property is the
  form's.
\<close>

theorem onSubmit_dispatch:
  "\<exists>v. effects (onSubmit s) = effects s @ [if isEditing s then UpdateProduto v else AddProduto v]
     \<and> get_prop v ''id'' = (if isEditing s then JNumber (produtoId s)
                           else get_prop (form_value (produtoForm s)) ''id'')
     \<and> (\<forall>k. k \<noteq> ''id'' \<longrightarrow> get_prop v k = get_prop (form_value (produtoForm s)) k)"
proof -
  obtain ps where fv: "form_value (produtoForm s) = JObject ps" using form_value_props by blast
  show ?thesis
  proof (cases "isEditing s")
    case True
    let ?v = "set_prop (JObject ps) ''id'' (JNumber (produtoId s))"
    have "effects (onSubmit s) = effects s @ [UpdateProduto ?v]"
      using True fv by (simp add: onSubmit_def Let_def)
    with True show ?thesis
      by (intro exI [of _ ?v]) (simp add: fv get_set_prop_same get_set_prop_other)
  next
    case False
    then show ?thesis by (intro exI [of _ "JObject ps"]) (simp add: onSubmit_def fv Let_def)
  qed
qed

text \<open>
  C5. Edit mode is never left: once \<open>isEditing\<close> is set, no sequence of events (route
  changes without an \<open>id\<close> included) resets it.
\<close>

theorem isEditing_never_reset:
  assumes "isEditing s"
  shows "isEditing (cadastro_run p s es)"
  using assms by (rule isEditing_run)

text \<open>
  C6. The fetched product reaches the form only in edit mode, only from the request of the
  latest route emission (\<open>switchMap\<close> drops superseded requests) and only when it is truthy.
\<close>

theorem fetch_patches_only_current:
  assumes "produtoForm (cadastro_step p s (FetchNext n v)) \<noteq> produtoForm s"
  shows "isEditing s \<and> params_active s \<and> fetch_pending s = Some n \<and> truthy v"
  using assms by (auto simp: on_fetch_next_def Let_def split: if_splits)

text \<open>
  C7. A failed \<open>getProdutoById\<close> leaves the form as it was and, since the subscription has
  no error callback, ends the subscription to the route: later route parameters are ignored.
\<close>

theorem fetch_error_ends_params:
  assumes "params_active s" "fetch_pending s = Some n"
  shows "produtoForm (cadastro_step p s (FetchError n e)) = produtoForm s
    \<and> \<not> params_active (cadastro_step p s (FetchError n e))
    \<and> cadastro_step p (cadastro_step p s (FetchError n e)) (ParamsEmit ps) = cadastro_step p s (FetchError n e)"
  using assms by (simp add: on_fetch_error_def on_params_def)

text \<open>
  C8. Every call to \<open>updateProduto\<close> or \<open>addProduto\<close> is either still outstanding or has
  been answered by exactly one snack bar: in every reachable state the calls made equal the
  notifications shown plus the calls outstanding.
\<close>

theorem calls_accounted:
  assumes "reachable p s"
  shows "length (filter is_call (effects s)) = length (filter is_notice (effects s)) + length (pending_calls s)"
  using reachable_calls_inv [OF assms] by (simp add: calls_inv_def)

text \<open>
  C9. A failed call is logged with \<open>console.error\<close> and reported with the error snack bar
  of its kind for 2000 ms; the form is kept, no dialog is closed, and the call is no longer
  outstanding.
\<close>

theorem call_error_reports:
  assumes "map_of (pending_calls s) n = Some op"
  shows "produtoForm (cadastro_step p s (CallError n e)) = produtoForm s
    \<and> effects (cadastro_step p s (CallError n e)) = effects s @
        [ConsoleError e, SnackBarOpen (if op = UpdateOp then msg_update_err else msg_add_err) ''Fechar'' 2000]
    \<and> map_of (pending_calls (cadastro_step p s (CallError n e))) n = None"
  using assms by (simp add: on_call_error_def delete_conv')

text \<open>
  C10. A successful call shows the success snack bar of its kind for 2000 ms and then closes
  every dialog; a second answer to the same call does nothing.
\<close>

theorem call_success_reports:
  assumes "map_of (pending_calls s) n = Some op"
  shows "effects (cadastro_step p s (CallSuccess n)) = effects s @
        [SnackBarOpen (if op = UpdateOp then msg_update_ok else msg_add_ok) ''Fechar'' 2000, DialogCloseAll]
    \<and> cadastro_step p (cadastro_step p s (CallSuccess n)) (CallSuccess n) = cadastro_step p s (CallSuccess n)"
  using assms by (simp add: on_call_success_def delete_conv')

text \<open>
  C12. Edit mode loads the product: in an initialised component whose route subscription
  is alive, a route emission with a non-empty \<open>id\<close> followed by the service's answer to
  that request enters edit mode with \<open>produtoId = +id\<close>, requests the product once, and
  fills every control of the form with the property of the same name, keeping the
  controls the product has no property for; properties without a control
  (\<open>dataFimGarantia\<close>) are dropped.
\<close>

theorem edit_load_fills_form:
  assumes "reachable p s" "initialized s" "params_active s" "x \<noteq> []"
  shows "isEditing (cadastro_run p s [ParamsEmit [(''id'', x)], FetchNext (fetch_seq s) (JObject ps)])
    \<and> produtoId (cadastro_run p s [ParamsEmit [(''id'', x)], FetchNext (fetch_seq s) (JObject ps)])
        = string_to_number x
    \<and> effects (cadastro_run p s [ParamsEmit [(''id'', x)], FetchNext (fetch_seq s) (JObject ps)])
        = effects s @ [GetProdutoById (string_to_number x)]
    \<and> (\<forall>k. get_prop (form_value (produtoForm
            (cadastro_run p s [ParamsEmit [(''id'', x)], FetchNext (fetch_seq s) (JObject ps)]))) k
          = (if k \<in> set form_keys
             then (case map_of (rev ps) k of None \<Rightarrow> get_prop (form_value (produtoForm s)) k | Some v \<Rightarrow> v)
             else JUndefined))"
proof -
  let ?r = "cadastro_run p s [ParamsEmit [(''id'', x)], FetchNext (fetch_seq s) (JObject ps)]"
  have run: "isEditing ?r" "produtoId ?r = string_to_number x"
    "effects ?r = effects s @ [GetProdutoById (string_to_number x)]"
    "produtoForm ?r = patch_value (produtoForm s) (JObject ps)"
    using assms(3,4) by (simp_all add: cadastro_run_def on_params_def on_fetch_next_def Let_def)
  have en: "controls_enabled (produtoForm s)" using reachable_enabled [OF assms(1,2)] .
  have "get_prop (form_value (produtoForm ?r)) k
     = (if k \<in> set form_keys
        then (case map_of (rev ps) k of None \<Rightarrow> get_prop (form_value (produtoForm s)) k | Some v \<Rightarrow> v)
        else JUndefined)" for k
  proof (cases "map_of (produtoForm s) k")
    case None
    with reachable_form(3) [OF assms(1,2), of k] en show ?thesis
      by (simp add: run(4) get_prop_form_value patch_value_map_of)
  next
    case (Some c)
    with reachable_form(3) [OF assms(1,2), of k] en show ?thesis
      by (simp add: run(4) get_prop_form_value patch_value_map_of split: option.split)
  qed
  with run show ?thesis by simp
qed

text \<open>
  C13. The product \<open>onSubmit\<close> sends is an object with exactly the form's four
  properties \<open>id\<close>, \<open>nome\<close>, \<open>dataCompra\<close> and \<open>duracaoGarantiaMeses\<close>, in both modes:
  it never carries \<open>dataFimGarantia\<close>, and in create mode it carries the \<open>id\<close> the user
  typed.
\<close>

theorem submitted_payload_shape:
  assumes "reachable p s" "initialized s"
  shows "\<exists>ps. effects (onSubmit s) =
      effects s @ [if isEditing s then UpdateProduto (JObject ps) else AddProduto (JObject ps)]
    \<and> map fst ps = form_keys"
proof -
  let ?ps = "map (\<lambda>(k, c). (k, ctl_value c)) (produtoForm s)"
  have fv: "form_value (produtoForm s) = JObject ?ps" by (rule reachable_form(1) [OF assms])
  have keys: "map fst ?ps = form_keys"
    using reachable_form(2) [OF assms] by (simp add: case_prod_beta comp_def)
  show ?thesis
  proof (cases "isEditing s")
    case True
    have "''id'' \<in> set (map fst ?ps)" unfolding keys by (simp add: form_keys_def)
    then have "map fst (AList.update ''id'' (JNumber (produtoId s)) ?ps) = form_keys"
      by (simp only: AList.update_keys keys if_True)
    with True fv show ?thesis
      by (intro exI [of _ "AList.update ''id'' (JNumber (produtoId s)) ?ps"])
        (simp add: onSubmit_def set_prop_def Let_def)
  next
    case False
    with fv keys show ?thesis by (intro exI [of _ ?ps]) (simp add: onSubmit_def Let_def)
  qed
qed

text \<open>
  C14. A route emission without an \<open>id\<close> (absent or empty) requests nothing and leaves
  the mode, the stored id and the form as they were; if a request was outstanding, its
  answer is no longer awaited (\<open>switchMap\<close> switches to the empty array).
\<close>

theorem params_without_id_no_fetch:
  assumes "\<not> truthy (case map_of ps ''id'' of None \<Rightarrow> JUndefined | Some x \<Rightarrow> JString x)"
  shows "effects (cadastro_step p s (ParamsEmit ps)) = effects s
    \<and> isEditing (cadastro_step p s (ParamsEmit ps)) = isEditing s
    \<and> produtoId (cadastro_step p s (ParamsEmit ps)) = produtoId s
    \<and> produtoForm (cadastro_step p s (ParamsEmit ps)) = produtoForm s
    \<and> (params_active s \<longrightarrow> fetch_pending (cadastro_step p s (ParamsEmit ps)) = None)"
  using assms by (simp add: on_params_def Let_def)

text \<open>
  C17. The request bookkeeping of the \<open>switchMap\<close> pipeline: in every reachable state the
  component has made exactly as many \<open>getProdutoById\<close> calls as requests it numbered,
  and an answer is awaited only to the latest request, only in edit mode and only while
  the subscription to the route is alive.
\<close>

theorem fetch_requests_accounted:
  assumes "reachable p s"
  shows "length (filter is_fetch (effects s)) = fetch_seq s
    \<and> (\<forall>n. fetch_pending s = Some n \<longrightarrow> Suc n = fetch_seq s \<and> isEditing s \<and> params_active s)"
proof -
  from assms have "fetch_inv s"
  proof (induction rule: reachable.induct)
    case start
    show ?case by (simp add: fetch_inv_def cadastro_new_def)
  next
    case (step s e)
    from step.IH show ?case by (rule fetch_inv_step)
  qed
  then show ?thesis by (auto simp: fetch_inv_def split: option.splits)
qed

end

