(* ===== verification/Spec2Isabelle.thy ===== *)
theory Spec2Isabelle
  imports Cadastro
begin

text \<open>
  \<^bold>\<open>A verification model of ControleGarantias' product form.\<close>

  The repository's logic is one Angular component,
  \<open>src/src/app/produto/cadastro/cadastro.component.ts\<close> (\<open>CadastroComponent\<close>): a reactive
  form for a product under warranty (\<open>id\<close>, \<open>nome\<close>, \<open>dataCompra\<close>,
  \<open>duracaoGarantiaMeses\<close>), three field validators, the derived warranty end date
  (purchase date plus the duration in months, \<open>calcularDataFimGarantia\<close>), an edit mode
  entered from the route parameter \<open>id\<close> (\<open>checkEditMode\<close>, which fetches the product
  and patches the form) and the submission to \<open>ProdutoService.updateProduto\<close> or
  \<open>addProduto\<close> with snack-bar notifications (\<open>onSubmit\<close>). The component is driven by
  Angular (\<open>ngOnInit\<close>), the router (\<open>route.params\<close>), the service's observables and
  the template (field input, date change, submit); the template, the service, \<open>Produto\<close>
  and the routing are outside \<open>src/\<close>.

  \<^bold>\<open>Theories.\<close>
  \<^item> \<open>Prelude\<close>: the model's type names (\<open>time_value\<close>), the \<open>model_eval\<close> collection
    of evaluation equations, decimal digit strings and their roundtrip, lemmas on integer
    division.
  \<^item> \<open>Calendar\<close>: ECMA-262's day, year, month and \<open>MakeDay\<close>/\<open>MakeDate\<close> arithmetic
    (what \<open>Date\<close> computes with). Library lemmas: \<open>year_from_day\<close>, an estimate corrected
    once, equals "the largest year starting on or before the day", and decomposing a day
    and reassembling it is the identity; the component's properties rest on them.
  \<^item> \<open>JsNumber\<close>: the Number type (NaN, \<open>\<plusminus>\<close>Infinity, finite values as exact rationals),
    StringToNumber (\<open>Number(s)\<close>, \<open>+s\<close>), Number::toString, addition, truncation, with the
    library lemmas that digit strings parse to their value and that toString and
    StringToNumber are inverse on finite decimals.
  \<^item> \<open>JsValue\<close>: JavaScript values, ToBoolean, \<open>typeof\<close>, ToNumber, ToPrimitive,
    ToString, the \<open>+\<close> operator, property read and write, \<open>Date.prototype.toString\<close>;
    the implementation-defined parts (time-zone offset and name, \<open>Date.parse\<close> beyond the
    ISO format) form the \<open>platform\<close> record every date operation takes.
  \<^item> \<open>JsDate\<close>: \<open>new Date(v)\<close>, the ISO Date Time String Format, \<open>getMonth\<close>,
    \<open>setMonth\<close>, \<open>getTime\<close>, \<open>TimeClip\<close>; library lemmas on parsing \<open>YYYY-MM-DD\<close>.
  \<^item> \<open>Forms\<close>: the part of \<open>@angular/forms\<close> the component uses: controls, groups,
    \<open>FormBuilder.group\<close>, \<open>Validators.required\<close>, merging of validation errors, group
    status, \<open>value\<close>, \<open>patchValue\<close>, with the lookup lemmas of \<open>patchValue\<close>.
  \<^item> \<open>Validators\<close>: \<open>numberValidator\<close>, \<open>stringValidator\<close>, \<open>dateValidator\<close> (source
    lines 94-114) and what the controls built from them accept (C11, C15).
  \<^item> \<open>Cadastro\<close>: the component as a state machine. The record \<open>cadastro\<close> holds the
    fields \<open>produtoForm\<close>, \<open>produtoId\<close>, \<open>isEditing\<close> and the asynchronous state:
    whether \<open>ngOnInit\<close> ran, whether the route subscription lives, the one live
    \<open>getProdutoById\<close> request of \<open>switchMap\<close>, the outstanding service calls, and the
    effect log (service calls, snack bars, \<open>dialog.closeAll\<close>, console). Each source
    method is one definition (\<open>createForm\<close>, \<open>checkEditMode\<close>, \<open>ngOnInit\<close>,
    \<open>on_params\<close> and \<open>on_fetch_next\<close>/\<open>on_fetch_error\<close> for the two halves of the
    \<open>switchMap\<close> pipeline, \<open>calcularDataFimGarantia\<close> with \<open>compute_end_date\<close> for lines
    84-87, \<open>onSubmit\<close> with \<open>on_call_success\<close>/\<open>on_call_error\<close> for its callbacks);
    \<open>cadastro_step\<close> dispatches an \<open>event\<close> of the environment, \<open>reachable\<close> is the set
    of states reachable from the constructed component. Invariants by rule induction: the
    form's controls after \<open>ngOnInit\<close> (the four names of \<open>createForm\<close>, all enabled),
    the accounting of service calls (C8) and of product requests (C17). The flows over
    \<open>cadastro_run\<close>: loading a product in edit mode (C12), the shape of the payload
    (C13), a route without id (C14).
  \<^item> This theory: sample platforms (UTC, and Brasilia at UTC-3 without daylight saving),
    the properties that span the date arithmetic, the validators and the component (C3,
    C4, C16) and the witnesses of every property with a hypothesis.

  \<^bold>\<open>What the properties show.\<close> The computed warranty end date never reaches the form
  (C1): \<open>createForm\<close> replaces the form that had a \<open>dataFimGarantia\<close> control with one
  that has none, and \<open>patchValue\<close> drops unknown keys. The date arithmetic adds months
  with roll-over for a numeric duration (C4), but a duration held as a string of digits
  is concatenated to the month (C3). Submission sends the form's value once, with the
  stored id in edit mode, whatever the form's status (C2), and the payload always has
  exactly the form's four properties, so create mode sends the user's \<open>id\<close> and no
  payload has \<open>dataFimGarantia\<close> (C13). Edit mode is never left (C5); only the latest
  request patches the form (C6), at most one answer is awaited and only in edit mode
  (C17); a failed fetch ends the route subscription (C7); the fetched product fills the
  form's controls (C12); a route without id fetches nothing (C14). Every call is answered
  at most once, with the notification of its kind (C8-C10). Blank strings pass the
  validators (C11), digit strings pass the numeric ones (C15), and any valid input
  (digit strings for id and duration, a name, a real ISO date) makes the form valid and
  is submitted exactly as typed (C16).

  \<^bold>\<open>Bounds and fuel.\<close> No loop of the program needs fuel: every recursion is structural,
  the component itself has no loop (its handlers are straight-line code), so termination
  holds by construction of the HOL functions. \<open>dec_scale\<close> in Number::toString searches
  at most 1100 decimal places, enough for every double (at most 1074 places).
  Time values are unbounded integers clipped by \<open>TimeClip\<close> at 8.64e15 ms, below 2^53, so
  integer arithmetic on them is exact as in binary64. Numbers are exact rationals, so the
  properties that read a number from a string (C3, C15) are stated for values below
  2^53, where binary64 is exact too.

  \<^bold>\<open>Not modelled.\<close> The HTML template and styles (not in \<open>src/\<close>; the events stand for
  what it can trigger), the HTTP transport behind \<open>ProdutoService\<close> (its answers are
  events), the snack-bar and dialog widgets (their calls are effects), rounding of long
  decimal literals to binary64 and overflow to Infinity, daylight-saving changes of the
  local offset, the cached \<open>value\<close> object of the form group that \<open>onSubmit\<close> mutates
  (nothing reads it afterwards), and Unicode white space beyond Latin-1.
\<close>

definition p_utc :: platform where
  "p_utc = \<lparr>tz_offset = 0, tz_name = ''Coordinated Universal Time'', date_fallback = (\<lambda>_. None)\<rparr>"

definition p_brt :: platform where
  "p_brt = \<lparr>tz_offset = -10800000, tz_name = ''Brasilia Standard Time'', date_fallback = (\<lambda>_. None)\<rparr>"

definition s_filled :: cadastro where
  "s_filled = cadastro_run p_utc cadastro_new
     [NgOnInit, Input ''dataCompra'' (JString ''2024-01-15''), Input ''duracaoGarantiaMeses'' (JNumber (Fin 12))]"

definition s_edit7 :: cadastro where
  "s_edit7 = cadastro_run p_utc cadastro_new [NgOnInit, ParamsEmit [(''id'', ''7'')], Input ''id'' (JString ''99'')]"

definition s_fetch :: cadastro where
  "s_fetch = cadastro_run p_utc cadastro_new [NgOnInit, ParamsEmit [(''id'', ''7'')]]"

definition s_submitted :: cadastro where
  "s_submitted = cadastro_run p_utc cadastro_new [NgOnInit, Submit]"

definition s_init :: cadastro where
  "s_init = cadastro_run p_utc cadastro_new [NgOnInit]"

definition sample_fields :: "(string \<times> jsval) list" where
  "sample_fields = [(''id'', JNumber (Fin 7)), (''nome'', JString ''Geladeira''),
     (''dataCompra'', JString ''2024-01-15''), (''duracaoGarantiaMeses'', JNumber (Fin 12)),
     (''dataFimGarantia'', JString ''2025-01-15'')]"

definition sample_product :: jsval where
  "sample_product = JObject sample_fields"

text \<open>
  C3. A duration held as a string of digits (what a text input yields) is concatenated
  to the month instead of added: for any purchase date that \<open>new Date\<close> accepts, in
  local month \<open>m\<close>, and a duration string \<open>s\<close>, \<open>setMonth\<close> receives the number
  \<open>m * 10^|s| + s\<close> (for 2024-04-15 and \<open>"12"\<close>: month 312, the year 2050), while the
  same duration as a number gives \<open>m + s\<close>. Strings of at most 14 digits keep every
  value below 2^53, where Number is exact.
\<close>

theorem string_duration_concatenates:
  assumes "date_construct p dataCompra = Some t" "s \<noteq> []" "list_all is_digit s" "length s \<le> 14"
  shows "compute_end_date p dataCompra (JString s) = date_set_month p (Some t)
      (JNumber (Fin (of_nat (nat (month_from_time (local_time p t)) * 10 ^ length s + digits_to_nat s))))
    \<and> compute_end_date p dataCompra (JNumber (Fin (of_nat (digits_to_nat s)))) = date_set_month p (Some t)
      (JNumber (Fin (of_int (month_from_time (local_time p t)) + of_nat (digits_to_nat s))))"
proof -
  define m where "m = month_from_time (local_time p t)"
  have m: "0 \<le> m" "m \<le> 11" unfolding m_def month_from_time_def by (simp_all add: month_from_day_bounds)
  have dm: "nat_to_digits (nat m) @ s \<noteq> []" "list_all is_digit (nat_to_digits (nat m) @ s)"
    using assms(3) nat_to_digits_correct [of "nat m"] by (auto simp: list_all_iff)
  have "to_number (JString (nat_to_digits (nat m) @ s))
      = to_number (JNumber (Fin (of_nat (nat m * 10 ^ length s + digits_to_nat s))))"
    using string_to_number_digits [OF dm] nat_to_digits_correct [of "nat m"]
    by (simp add: digits_to_nat_concat)
  then have "date_set_month p (Some t) (JString (nat_to_digits (nat m) @ s))
      = date_set_month p (Some t) (JNumber (Fin (of_nat (nat m * 10 ^ length s + digits_to_nat s))))"
    by (rule date_set_month_to_number)
  then show ?thesis
    using assms(1) number_to_string_month [OF m]
    by (simp add: m_def compute_end_date_def date_get_month_def js_plus_number_string js_plus_numbers
        num_add_def)
qed

text \<open>
  C4. For a date whose local day of the month is at most 28 and a whole number of months
  \<open>k\<close> (a numeric duration), \<open>calcularDataFimGarantia\<close>'s computation returns a valid date
  whenever the result is in range: the same local day and time of day, the month
  \<open>(m + k) mod 12\<close> and the year advanced by \<open>(m + k) div 12\<close>.
\<close>

theorem end_date_adds_months:
  fixes t k :: int
  assumes "date_from_time (local_time p t) \<le> 28"
    and "\<bar>utc_time p (make_date (make_day (year_from_time (local_time p t))
            (month_from_time (local_time p t) + k) (date_from_time (local_time p t)))
            (time_within_day (local_time p t)))\<bar> \<le> max_time"
  shows "\<exists>t'. compute_end_date p (JDate (Some t)) (JNumber (Fin (of_int k))) = Some t'
    \<and> year_from_time (local_time p t') = year_from_time (local_time p t) + (month_from_time (local_time p t) + k) div 12
    \<and> month_from_time (local_time p t') = (month_from_time (local_time p t) + k) mod 12
    \<and> date_from_time (local_time p t') = date_from_time (local_time p t)
    \<and> time_within_day (local_time p t') = time_within_day (local_time p t)"
proof -
  define lt where "lt = local_time p t"
  define y m d tw where "y = year_from_time lt" and "m = month_from_time lt"
    and "d = date_from_time lt" and "tw = time_within_day lt"
  define D where "D = make_day (y + (m + k) div 12) ((m + k) mod 12) d"
  have tr: "js_trunc (of_int m + of_int k) = m + k" by (metis js_trunc_of_int of_int_add)
  have md: "make_day y (m + k) d = D" unfolding D_def by (rule make_day_normalise)
  have ce: "compute_end_date p (JDate (Some t)) (JNumber (Fin (of_int k)))
      = time_clip_int (utc_time p (make_date D tw))"
    using tr md unfolding compute_end_date_def date_construct_def date_get_month_def date_set_month_def
    by (simp add: js_plus_numbers num_add_def Let_def lt_def y_def m_def d_def tw_def
        month_from_time_def)
  have rng: "\<bar>utc_time p (make_date D tw)\<bar> \<le> max_time"
    using assms(2) md unfolding lt_def y_def m_def d_def tw_def by simp
  have "0 \<le> (m + k) mod 12" "(m + k) mod 12 \<le> 11" by simp_all
  then have "28 \<le> days_in_month (y + (m + k) div 12) ((m + k) mod 12)" by (rule days_in_month_min)
  then have d1: "1 \<le> d" "d \<le> days_in_month (y + (m + k) div 12) ((m + k) mod 12)"
    using date_from_day_bounds(1) [of "day lt"] assms(1)
    unfolding d_def lt_def date_from_time_def by simp_all
  have dec: "year_from_day D = y + (m + k) div 12 \<and> month_from_day D = (m + k) mod 12 \<and> date_from_day D = d"
    unfolding D_def by (rule make_day_decode) (use d1 in simp_all)
  have "0 \<le> tw" "tw < ms_per_day" unfolding tw_def time_within_day_def by (simp_all add: ms_per_day_def)
  then have td: "time_within_day (make_date D tw) = tw \<and> day (make_date D tw) = D"
    by (rule time_within_day_make_date)
  show ?thesis
    using ce time_clip_int_in_range [OF rng] dec td
    unfolding year_from_time_def month_from_time_def date_from_time_def
    by (simp add: lt_def y_def m_def d_def tw_def year_from_time_def month_from_time_def date_from_time_def)
qed

text \<open>
  C16. Valid input is accepted and submitted as typed: after \<open>ngOnInit\<close>, a non-empty
  digit string as \<open>id\<close>, a non-empty name, a real date as \<open>YYYY-MM-DD\<close> and a non-empty
  digit string as the duration make the form \<open>VALID\<close> on every platform, and submitting
  in create mode calls \<open>addProduto\<close> once with exactly these four values.
\<close>

theorem valid_input_submitted:
  assumes "y < 10000" "1 \<le> m" "m \<le> 12" "1 \<le> d" "int d \<le> days_in_month (int y) (int m - 1)"
    and "ids \<noteq> []" "list_all is_digit ids" "dur \<noteq> []" "list_all is_digit dur" "nome \<noteq> []"
  shows "group_status (produtoForm (cadastro_run p cadastro_new
      [NgOnInit, Input ''id'' (JString ids), Input ''nome'' (JString nome),
       Input ''dataCompra'' (JString (iso_date_string y m d)), Input ''duracaoGarantiaMeses'' (JString dur)])) = Valid
    \<and> effects (cadastro_run p cadastro_new
      [NgOnInit, Input ''id'' (JString ids), Input ''nome'' (JString nome),
       Input ''dataCompra'' (JString (iso_date_string y m d)), Input ''duracaoGarantiaMeses'' (JString dur), Submit])
      = [AddProduto (JObject [(''id'', JString ids), (''nome'', JString nome),
          (''dataCompra'', JString (iso_date_string y m d)), (''duracaoGarantiaMeses'', JString dur)])]"
proof -
  let ?es = "[NgOnInit, Input ''id'' (JString ids), Input ''nome'' (JString nome),
       Input ''dataCompra'' (JString (iso_date_string y m d)), Input ''duracaoGarantiaMeses'' (JString dur)]"
  let ?g = "[(''id'', fb_control (JString ids) False [required, numberValidator]),
      (''nome'', fb_control (JString nome) False [required, stringValidator]),
      (''dataCompra'', fb_control (JString (iso_date_string y m d)) False [required, dateValidator p]),
      (''duracaoGarantiaMeses'', fb_control (JString dur) False [required, numberValidator])]"
  have run: "produtoForm (cadastro_run p cadastro_new ?es) = ?g" "effects (cadastro_run p cadastro_new ?es) = []"
    "initialized (cadastro_run p cadastro_new ?es)" "\<not> isEditing (cadastro_run p cadastro_new ?es)"
    by (simp_all add: cadastro_run_def ngOnInit_def createForm_def checkEditMode_def on_input_def
        set_control_value_def fb_control_def cadastro_new_def)
  have rq: "required (JString (iso_date_string y m d)) = None"
    by (simp add: required_def is_empty_input_def iso_date_string_def)
  have dp: "dateValidator p (JString (iso_date_string y m d)) = None"
    using iso_date_construct [OF assms(1-5), of p] by (rule date_passes)
  have "group_status ?g = Valid"
    using digits_pass [OF assms(6,7)] digits_pass [OF assms(8,9)] text_passes [OF assms(10)] dp rq
    by (simp add: group_status_def group_disabled_def control_errors_def compose_validators_def
        fb_control_def merge_errors_None)
  moreover have "form_value ?g = JObject [(''id'', JString ids), (''nome'', JString nome),
          (''dataCompra'', JString (iso_date_string y m d)), (''duracaoGarantiaMeses'', JString dur)]"
    by (simp add: form_value_def fb_control_def)
  ultimately have "group_status (produtoForm (cadastro_run p cadastro_new ?es)) = Valid
    \<and> effects (cadastro_run p cadastro_new (?es @ [Submit]))
      = [AddProduto (JObject [(''id'', JString ids), (''nome'', JString nome),
          (''dataCompra'', JString (iso_date_string y m d)), (''duracaoGarantiaMeses'', JString dur)])]"
    using run by (simp only: cadastro_run_snoc) (simp add: onSubmit_def Let_def)
  then show ?thesis by simp
qed

subsection \<open>Witnesses\<close>

theorem calcularDataFimGarantia_noop_witness:
  "reachable p_utc s_filled
   \<and> truthy (get_prop (form_value (produtoForm s_filled)) ''dataCompra'')
   \<and> truthy (get_prop (form_value (produtoForm s_filled)) ''duracaoGarantiaMeses'')
   \<and> calcularDataFimGarantia p_utc s_filled = s_filled"
proof -
  have r: "reachable p_utc s_filled" unfolding s_filled_def by (rule reachable_run [OF reachable.start])
  have t: "truthy (get_prop (form_value (produtoForm s_filled)) ''dataCompra'')
    \<and> truthy (get_prop (form_value (produtoForm s_filled)) ''duracaoGarantiaMeses'')"
    unfolding s_filled_def by code_simp
  show ?thesis using r t Cadastro.calcularDataFimGarantia_noop [OF r] by simp
qed

theorem onSubmit_dispatch_witness:
  "isEditing s_edit7 \<and> produtoId s_edit7 = Fin 7
   \<and> get_prop (form_value (produtoForm s_edit7)) ''id'' = JString ''99''
   \<and> (\<exists>v. effects (onSubmit s_edit7) = effects s_edit7 @ [UpdateProduto v]
        \<and> get_prop v ''id'' = JNumber (Fin 7)
        \<and> (\<forall>k. k \<noteq> ''id'' \<longrightarrow> get_prop v k = get_prop (form_value (produtoForm s_edit7)) k))"
proof -
  have e: "isEditing s_edit7" "produtoId s_edit7 = Fin 7"
    "get_prop (form_value (produtoForm s_edit7)) ''id'' = JString ''99''"
    unfolding s_edit7_def by code_simp+
  show ?thesis using Cadastro.onSubmit_dispatch [of s_edit7] e by simp
qed

theorem end_date_adds_months_witness:
  "\<exists>t'. compute_end_date p_brt (JDate (Some 1705276800000)) (JNumber (Fin (of_int 13))) = Some t'
    \<and> year_from_time (local_time p_brt t') = 2025 \<and> month_from_time (local_time p_brt t') = 1
    \<and> date_from_time (local_time p_brt t') = 14 \<and> time_within_day (local_time p_brt t') = 75600000"
proof -
  have h: "date_from_time (local_time p_brt 1705276800000) \<le> 28"
    "\<bar>utc_time p_brt (make_date (make_day (year_from_time (local_time p_brt 1705276800000))
        (month_from_time (local_time p_brt 1705276800000) + 13) (date_from_time (local_time p_brt 1705276800000)))
        (time_within_day (local_time p_brt 1705276800000)))\<bar> \<le> max_time"
    by code_simp+
  have v: "year_from_time (local_time p_brt 1705276800000) = 2024"
    "month_from_time (local_time p_brt 1705276800000) = 0"
    "date_from_time (local_time p_brt 1705276800000) = 14"
    "time_within_day (local_time p_brt 1705276800000) = 75600000"
    by code_simp+
  show ?thesis using end_date_adds_months [OF h] v by simp
qed

theorem isEditing_never_reset_witness:
  "isEditing s_edit7 \<and> isEditing (cadastro_run p_utc s_edit7 [ParamsEmit [], ParamsEmit [(''id'', [])]])"
proof -
  have e: "isEditing s_edit7" unfolding s_edit7_def by code_simp
  show ?thesis using Cadastro.isEditing_never_reset [OF e] e by blast
qed

theorem fetch_patches_only_current_witness:
  "produtoForm (cadastro_step p_utc s_fetch (FetchNext 0 sample_product)) \<noteq> produtoForm s_fetch
   \<and> isEditing s_fetch \<and> params_active s_fetch \<and> fetch_pending s_fetch = Some 0 \<and> truthy sample_product"
proof -
  have d: "produtoForm (cadastro_step p_utc s_fetch (FetchNext 0 sample_product)) \<noteq> produtoForm s_fetch"
  proof
    assume "produtoForm (cadastro_step p_utc s_fetch (FetchNext 0 sample_product)) = produtoForm s_fetch"
    then have "map (\<lambda>(k, c). ctl_value c) (produtoForm (cadastro_step p_utc s_fetch (FetchNext 0 sample_product)))
      = map (\<lambda>(k, c). ctl_value c) (produtoForm s_fetch)" by simp
    moreover have "map (\<lambda>(k, c). ctl_value c) (produtoForm (cadastro_step p_utc s_fetch (FetchNext 0 sample_product)))
      \<noteq> map (\<lambda>(k, c). ctl_value c) (produtoForm s_fetch)"
      unfolding s_fetch_def sample_product_def sample_fields_def by code_simp
    ultimately show False by simp
  qed
  show ?thesis using Cadastro.fetch_patches_only_current [OF d] d by simp
qed

theorem fetch_error_ends_params_witness:
  "params_active s_fetch \<and> fetch_pending s_fetch = Some 0
   \<and> produtoForm (cadastro_step p_utc s_fetch (FetchError 0 (JString ''404''))) = produtoForm s_fetch
   \<and> \<not> params_active (cadastro_step p_utc s_fetch (FetchError 0 (JString ''404'')))
   \<and> cadastro_step p_utc (cadastro_step p_utc s_fetch (FetchError 0 (JString ''404''))) (ParamsEmit [(''id'', ''8'')])
       = cadastro_step p_utc s_fetch (FetchError 0 (JString ''404''))"
proof -
  have h: "params_active s_fetch" "fetch_pending s_fetch = Some 0" unfolding s_fetch_def by code_simp+
  show ?thesis using Cadastro.fetch_error_ends_params [OF h] h by blast
qed

theorem calls_accounted_witness:
  "reachable p_utc (cadastro_run p_utc cadastro_new [NgOnInit, Submit, Submit, CallSuccess 0])
   \<and> length (filter is_call (effects (cadastro_run p_utc cadastro_new [NgOnInit, Submit, Submit, CallSuccess 0]))) = 2
   \<and> length (filter is_notice (effects (cadastro_run p_utc cadastro_new [NgOnInit, Submit, Submit, CallSuccess 0]))) = 1
   \<and> length (filter is_call (effects (cadastro_run p_utc cadastro_new [NgOnInit, Submit, Submit, CallSuccess 0])))
     = length (filter is_notice (effects (cadastro_run p_utc cadastro_new [NgOnInit, Submit, Submit, CallSuccess 0])))
       + length (pending_calls (cadastro_run p_utc cadastro_new [NgOnInit, Submit, Submit, CallSuccess 0]))"
proof -
  have r: "reachable p_utc (cadastro_run p_utc cadastro_new [NgOnInit, Submit, Submit, CallSuccess 0])"
    by (rule reachable_run [OF reachable.start])
  have c: "length (filter is_call (effects (cadastro_run p_utc cadastro_new [NgOnInit, Submit, Submit, CallSuccess 0]))) = 2"
    "length (filter is_notice (effects (cadastro_run p_utc cadastro_new [NgOnInit, Submit, Submit, CallSuccess 0]))) = 1"
    by code_simp+
  show ?thesis using r c Cadastro.calls_accounted [OF r] by simp
qed

theorem call_error_reports_witness:
  "map_of (pending_calls s_submitted) 0 = Some AddOp
   \<and> effects (cadastro_step p_utc s_submitted (CallError 0 (JString ''500''))) = effects s_submitted @
       [ConsoleError (JString ''500''), SnackBarOpen ''Erro ao cadastrar o produto'' ''Fechar'' 2000]"
proof -
  have h: "map_of (pending_calls s_submitted) 0 = Some AddOp" unfolding s_submitted_def by code_simp
  show ?thesis using Cadastro.call_error_reports [OF h, of p_utc "JString ''500''"] h
    by (simp add: msg_add_err_def)
qed

theorem call_success_reports_witness:
  "map_of (pending_calls s_submitted) 0 = Some AddOp
   \<and> effects (cadastro_step p_utc s_submitted (CallSuccess 0)) = effects s_submitted @
       [SnackBarOpen ''Produto cadastrado com sucesso'' ''Fechar'' 2000, DialogCloseAll]"
proof -
  have h: "map_of (pending_calls s_submitted) 0 = Some AddOp" unfolding s_submitted_def by code_simp
  show ?thesis using Cadastro.call_success_reports [OF h, of p_utc] h by (simp add: msg_add_ok_def)
qed

theorem edit_load_fills_form_witness:
  "reachable p_utc s_init \<and> initialized s_init \<and> params_active s_init \<and> ''7'' \<noteq> []
   \<and> produtoId (cadastro_run p_utc s_init [ParamsEmit [(''id'', ''7'')], FetchNext (fetch_seq s_init) sample_product])
       = Fin 7
   \<and> get_prop (form_value (produtoForm
       (cadastro_run p_utc s_init [ParamsEmit [(''id'', ''7'')], FetchNext (fetch_seq s_init) sample_product])))
       ''nome'' = JString ''Geladeira''"
proof -
  have r: "reachable p_utc s_init" unfolding s_init_def by (rule reachable_run [OF reachable.start])
  have h: "initialized s_init" "params_active s_init" unfolding s_init_def by code_simp+
  have n: "string_to_number ''7'' = Fin 7" by code_simp
  have f: "map_of (rev sample_fields) ''nome'' = Some (JString ''Geladeira'')" "''nome'' \<in> set form_keys"
    by (simp_all add: sample_fields_def form_keys_def)
  show ?thesis
    using r h n f Cadastro.edit_load_fills_form [OF r h, of "''7''" sample_fields]
    unfolding sample_product_def by simp
qed

theorem submitted_payload_shape_witness:
  "reachable p_utc s_edit7 \<and> initialized s_edit7 \<and> isEditing s_edit7
   \<and> (\<exists>ps. effects (onSubmit s_edit7) = effects s_edit7 @ [UpdateProduto (JObject ps)] \<and> map fst ps = form_keys)"
proof -
  have r: "reachable p_utc s_edit7" unfolding s_edit7_def by (rule reachable_run [OF reachable.start])
  have h: "initialized s_edit7" "isEditing s_edit7" unfolding s_edit7_def by code_simp+
  show ?thesis using r h Cadastro.submitted_payload_shape [OF r h(1)] by simp
qed

theorem params_without_id_no_fetch_witness:
  "\<not> truthy (case map_of [(''id'', [])] ''id'' of None \<Rightarrow> JUndefined | Some x \<Rightarrow> JString x)
   \<and> params_active s_edit7
   \<and> isEditing (cadastro_step p_utc s_edit7 (ParamsEmit [(''id'', [])]))
   \<and> fetch_pending (cadastro_step p_utc s_edit7 (ParamsEmit [(''id'', [])])) = None"
proof -
  have h: "\<not> truthy (case map_of [(''id'', [])] ''id'' of None \<Rightarrow> JUndefined | Some x \<Rightarrow> JString x)"
    by simp
  have a: "params_active s_edit7" "isEditing s_edit7" unfolding s_edit7_def by code_simp+
  show ?thesis using h a Cadastro.params_without_id_no_fetch [OF h, of p_utc s_edit7] by simp
qed

theorem valid_input_submitted_witness:
  "(2024::nat) < 10000 \<and> (1::nat) \<le> 1 \<and> (1::nat) \<le> 12 \<and> (1::nat) \<le> 15
   \<and> int 15 \<le> days_in_month (int 2024) (int 1 - 1)
   \<and> list_all is_digit ''7'' \<and> list_all is_digit ''12''
   \<and> group_status (produtoForm (cadastro_run p_utc cadastro_new
      [NgOnInit, Input ''id'' (JString ''7''), Input ''nome'' (JString ''TV''),
       Input ''dataCompra'' (JString (iso_date_string 2024 1 15)), Input ''duracaoGarantiaMeses'' (JString ''12'')]))
     = Valid"
proof -
  have h: "int 15 \<le> days_in_month (int 2024) (int 1 - 1)" "list_all is_digit ''7''" "list_all is_digit ''12''"
    by code_simp+
  show ?thesis
    using h valid_input_submitted [of 2024 1 15 "''7''" "''12''" "''TV''" p_utc] by simp
qed

theorem string_duration_concatenates_witness:
  "date_construct p_utc (JString ''2024-04-15'') = Some 1713139200000
   \<and> ''12'' \<noteq> [] \<and> list_all is_digit ''12'' \<and> length ''12'' \<le> 14
   \<and> compute_end_date p_utc (JString ''2024-04-15'') (JString ''12'')
       = date_set_month p_utc (Some 1713139200000) (JNumber (Fin 312))"
proof -
  have h: "date_construct p_utc (JString ''2024-04-15'') = Some 1713139200000" "list_all is_digit ''12''"
    by code_simp+
  have m: "month_from_time (local_time p_utc 1713139200000) = 3" "digits_to_nat ''12'' = 12" by code_simp+
  show ?thesis using h m string_duration_concatenates [OF h(1), of "''12''"] by simp
qed

theorem blank_fields_pass_validation_witness:
  "''  '' \<noteq> [] \<and> set ''  '' \<subseteq> {CHR '' '', CHR 0x09}
   \<and> control_errors (fb_control (JString ''  '') False [required, numberValidator]) = None"
  using Validators.blank_fields_pass_validation [of "''  ''"] by simp


theorem fetch_requests_accounted_witness:
  "reachable p_utc s_fetch \<and> fetch_pending s_fetch = Some 0 \<and> fetch_seq s_fetch = 1 \<and> isEditing s_fetch"
proof -
  have r: "reachable p_utc s_fetch" unfolding s_fetch_def by (rule reachable_run [OF reachable.start])
  have f: "fetch_pending s_fetch = Some 0" unfolding s_fetch_def by code_simp
  show ?thesis using r f Cadastro.fetch_requests_accounted [OF r] by simp
qed

end

